theory Spec2Isabelle
  imports Main "HOL-Library.Word" "HOL-Library.Product_Lexorder" "HOL-Library.Multiset"
begin

unbundle bit_operations_syntax

section \<open>JavaScript strings\<close>

text \<open>
  A JavaScript string is a sequence of UTF-16 code units. \<open>length\<close>, \<open>startsWith\<close>,
  \<open>substring\<close>, \<open>trim\<close> and \<open>split\<close> all work on code units, so the model keeps them:
  a string is a list of 16-bit words. \<open>js\<close> turns an ASCII literal of the source into
  such a string.
\<close>

type_synonym jschar = "16 word"
type_synonym jsstring = "jschar list"

definition js :: "string \<Rightarrow> jsstring" where
  "js s = map of_char s"

text \<open>
  ECMAScript's WhiteSpace and LineTerminator code points. \<open>String.prototype.trim\<close> strips
  exactly these, and the regular expression class \<open>\s\<close> matches exactly these.
\<close>

definition is_whitespace :: "jschar \<Rightarrow> bool" where
  "is_whitespace c \<longleftrightarrow>
     c = 0x0009 \<or> c = 0x000A \<or> c = 0x000B \<or> c = 0x000C \<or> c = 0x000D \<or> c = 0x0020 \<or>
     c = 0x00A0 \<or> c = 0x1680 \<or> (0x2000 \<le> c \<and> c \<le> 0x200A) \<or> c = 0x2028 \<or>
     c = 0x2029 \<or> c = 0x202F \<or> c = 0x205F \<or> c = 0x3000 \<or> c = 0xFEFF"

definition trim :: "jsstring \<Rightarrow> jsstring" where
  "trim s = rev (dropWhile is_whitespace (rev (dropWhile is_whitespace s)))"

definition startsWith :: "jsstring \<Rightarrow> jsstring \<Rightarrow> bool" where
  "startsWith s p \<longleftrightarrow> take (length p) s = p"

definition substring :: "jsstring \<Rightarrow> nat \<Rightarrow> jsstring" where
  "substring s n = drop n s"

text \<open>
  \<open>s.split(/\s+/)\<close>: the string is cut at every maximal run of whitespace. The piece
  before the first run and the piece after the last run are kept even when they are
  empty, and the empty string splits into one empty piece. \<open>cur\<close> is the piece being
  read.
\<close>

function split_ws_from :: "jsstring \<Rightarrow> jsstring \<Rightarrow> jsstring list" where
  "split_ws_from cur [] = [cur]"
| "split_ws_from cur (c # cs) =
     (if is_whitespace c then cur # split_ws_from [] (dropWhile is_whitespace cs)
      else split_ws_from (cur @ [c]) cs)"
  by pat_completeness auto
termination
  by (relation "measure (\<lambda>(cur, s). length s)")
     (auto intro: le_imp_less_Suc length_dropWhile_le)

definition split_ws :: "jsstring \<Rightarrow> jsstring list" where
  "split_ws s = split_ws_from [] s"

section \<open>Section model: the word count derived before saving\<close>

text \<open>
  The body of \<open>sectionSchema.pre('save')\<close>:
  \<^verbatim>\<open>
  const trimmedStory = this.story.trim();
  this.wordCount = trimmedStory === '' ? 0
    : trimmedStory.split(/\s+/).filter(word => word.length > 0).length;
  \<close>
\<close>

definition derive_wordCount :: "jsstring \<Rightarrow> nat" where
  "derive_wordCount story =
     (let trimmedStory = trim story
      in if trimmedStory = [] then 0
         else length (filter (\<lambda>word. length word > 0) (split_ws trimmedStory)))"

text \<open>
  The specification's words, as a second definition to compare with: the maximal
  whitespace-delimited non-empty tokens of a string, read off from the left, and the
  word count the specification derives from them.
\<close>

function tokens :: "jsstring \<Rightarrow> jsstring list" where
  "tokens [] = []"
| "tokens (c # cs) =
     (if is_whitespace c then tokens cs
      else takeWhile (\<lambda>x. \<not> is_whitespace x) (c # cs)
           # tokens (dropWhile (\<lambda>x. \<not> is_whitespace x) cs))"
  by pat_completeness auto
termination
  by (relation "measure length")
     (auto intro: le_imp_less_Suc length_dropWhile_le)

definition spec_wordCount :: "jsstring \<Rightarrow> nat" where
  "spec_wordCount s = (if trim s = [] then 0 else length (tokens (trim s)))"


section \<open>Bytes in hexadecimal\<close>

type_synonym byte = "8 word"

text \<open>
  \<open>buf.toString('hex')\<close> writes two lower-case digits per byte. \<open>Buffer.from(s, 'hex')\<close>
  reads two digits per byte, in either case, and stops at the first pair that is not two
  hexadecimal digits (a last digit without its pair is not read).
\<close>

definition hex_digit :: "nat \<Rightarrow> jschar" where
  "hex_digit n = (if n < 10 then of_nat (0x30 + n) else of_nat (0x61 + (n - 10)))"

definition hex_encode :: "byte list \<Rightarrow> jsstring" where
  "hex_encode bs = concat (map (\<lambda>b. [hex_digit (unat b div 16), hex_digit (unat b mod 16)]) bs)"

definition hex_value :: "jschar \<Rightarrow> nat option" where
  "hex_value c =
     (let n = unat c
      in if 0x30 \<le> n \<and> n \<le> 0x39 then Some (n - 0x30)
         else if 0x61 \<le> n \<and> n \<le> 0x66 then Some (n - 0x61 + 10)
         else if 0x41 \<le> n \<and> n \<le> 0x46 then Some (n - 0x41 + 10)
         else None)"

fun hex_decode :: "jsstring \<Rightarrow> byte list" where
  "hex_decode (a # b # cs) =
     (case hex_value a of
        None \<Rightarrow> []
      | Some x \<Rightarrow>
          (case hex_value b of
             None \<Rightarrow> []
           | Some y \<Rightarrow> of_nat (16 * x + y) # hex_decode cs))"
| "hex_decode cs = []"

section \<open>Errors and responses\<close>

text \<open>
  Every \<open>throw\<close> of the source is a value. \<open>Error m\<close> is \<open>new Error(m)\<close> with the
  message the source writes. The errors raised inside the libraries are kept apart by
  constructor: the cipher's (\<open>crypto_error\<close>), the schema validators' messages of a failed
  \<open>save()\<close>, Mongoose's \<open>CastError\<close> for a value that is not an ObjectId (it holds the
  value), and a rejection by the storage engine.
\<close>

datatype crypto_error =
    InvalidIV
  | InvalidKeyLength
  | InvalidHexLength
  | WrongFinalBlockLength
  | BadDecrypt

datatype js_error =
    Error string
  | EncryptionFailed crypto_error
  | DecryptionFailed crypto_error
  | ValidationError "string list"
  | CastError jsstring
  | StoreError string

text \<open>
  An ObjectId is twelve bytes. The identifiers of stored documents are ObjectIds; a route
  parameter and the \<open>userId\<close> of a token are strings, which Mongoose casts to an
  ObjectId when they are used in a query. A string of 24 hexadecimal digits, in either
  case, is cast to the twelve bytes it writes; that is so in every version of the
  driver, and it is the cast modelled here. A string that is not cast makes the query
  throw a \<open>CastError\<close>. (Some versions of the driver also cast other values, such as
  strings of 12 characters; the model rejects them, and no theorem below is about them.)
\<close>

type_synonym oid = "byte list"

definition cast_ObjectId :: "jsstring \<Rightarrow> oid option" where
  "cast_ObjectId s =
     (if length s = 24 \<and> list_all (\<lambda>c. hex_value c \<noteq> None) s then Some (hex_decode s)
      else None)"

text \<open>\<open>new ObjectId('...')\<close> of 24 hexadecimal digits, for the identifiers of examples.\<close>

definition ObjectId :: "string \<Rightarrow> oid" where
  "ObjectId s = hex_decode (js s)"

record user =
  u_id :: oid
  u_email :: jsstring
  u_password :: "jsstring option"

record book =
  b_id :: oid
  b_title :: jsstring
  b_user :: oid
  b_description :: "jsstring option"
  b_isPublished :: bool
  b_createdAt :: nat
  b_updatedAt :: nat

record section_doc =
  s_id :: oid
  s_title :: jsstring
  s_story :: jsstring
  s_book :: oid
  s_order :: int
  s_wordCount :: nat
  s_createdAt :: nat
  s_updatedAt :: nat

datatype payload =
    NoData
  | BookData book
  | BooksData "book list"
  | SectionData section_doc
  | SectionsData book "section_doc list"

text \<open>
  What a handler sends: \<open>res.status(n).json({success, message, count, data, error})\<close>.
  \<open>error\<close> holds the error whose \<open>message\<close> the handler reports.
\<close>

record response =
  status :: nat
  success :: bool
  message :: "string option"
  count :: "nat option"
  data :: payload
  error :: "js_error option"

definition failure :: "nat \<Rightarrow> string \<Rightarrow> response" where
  "failure st msg =
     \<lparr>status = st, success = False, message = Some msg, count = None, data = NoData,
      error = None\<rparr>"

definition failure_with :: "nat \<Rightarrow> string \<Rightarrow> js_error \<Rightarrow> response" where
  "failure_with st msg e =
     \<lparr>status = st, success = False, message = Some msg, count = None, data = NoData,
      error = Some e\<rparr>"

section \<open>The document store\<close>

text \<open>
  The collections behind the Mongoose models, as lists of documents in insertion order.
  \<open>fault\<close> is the storage engine's state: when it is \<open>Some m\<close> every query and every
  write is rejected with an error of message \<open>m\<close> (the transport or storage fault of the
  specification); when it is \<open>None\<close> the engine answers.
\<close>

record db =
  users :: "user list"
  books :: "book list"
  sections :: "section_doc list"
  fault :: "string option"

definition store_call :: "db \<Rightarrow> 'a \<Rightarrow> js_error + 'a" where
  "store_call d r = (case fault d of Some m \<Rightarrow> Inl (StoreError m) | None \<Rightarrow> Inr r)"

text \<open>
  A query by an identifier given as a string: the string is cast before anything is sent
  to the store, and the query \<open>q\<close> is answered for the ObjectId it was cast to.
\<close>

definition query_by_id :: "db \<Rightarrow> jsstring \<Rightarrow> (oid \<Rightarrow> 'a) \<Rightarrow> js_error + 'a" where
  "query_by_id d ident q =
     (case cast_ObjectId ident of
        None \<Rightarrow> Inl (CastError ident)
      | Some i \<Rightarrow> store_call d (q i))"

text \<open>\<open>User.findById(id).select('-password')\<close>\<close>

definition User_findById :: "db \<Rightarrow> jsstring \<Rightarrow> js_error + user option" where
  "User_findById d ident =
     query_by_id d ident
       (\<lambda>i. map_option (\<lambda>u. u\<lparr>u_password := None\<rparr>) (find (\<lambda>u. u_id u = i) (users d)))"

section \<open>JWTService\<close>

record jwt_payload =
  userId :: jsstring

text \<open>
  \<open>jwt.verify(token, process.env.JWT_SECRET)\<close> belongs to the jsonwebtoken library: it is
  the parameter \<open>jwt_verify\<close>, which returns the decoded payload or the error the
  library throws.
\<close>

type_synonym jwt_lib = "jsstring \<Rightarrow> js_error + jwt_payload"

definition verifyToken :: "jwt_lib \<Rightarrow> jsstring \<Rightarrow> js_error + jwt_payload" where
  "verifyToken jwt_verify token =
     (case jwt_verify token of
        Inl e \<Rightarrow> Inl (Error ''Invalid or expired token'')
      | Inr decoded \<Rightarrow> Inr decoded)"

text \<open>The header is absent (\<open>None\<close>) or a string; \<open>!authHeader\<close> holds for both
  \<open>undefined\<close> and the empty string.\<close>

definition extractTokenFromHeader :: "jsstring option \<Rightarrow> js_error + jsstring" where
  "extractTokenFromHeader authHeader =
     (case authHeader of
        None \<Rightarrow> Inl (Error ''Authorization header must start with Bearer'')
      | Some h \<Rightarrow>
          if h = [] \<or> \<not> startsWith h (js ''Bearer '')
          then Inl (Error ''Authorization header must start with Bearer'')
          else Inr (substring h 7))"

section \<open>Auth middleware\<close>

text \<open>
  \<open>authenticateToken\<close> either sends a response or sets \<open>req.user\<close> and calls \<open>next()\<close>.
  Everything thrown inside its \<open>try\<close> block (by the extraction, by the verification, by
  the user lookup) reaches the one \<open>catch\<close>.
\<close>

datatype auth_outcome = Responded response | Next user

definition authenticateToken :: "jwt_lib \<Rightarrow> db \<Rightarrow> jsstring option \<Rightarrow> auth_outcome" where
  "authenticateToken jwt_verify d authHeader =
     (if authHeader = None \<or> authHeader = Some []
      then Responded (failure 401 ''Access token required'')
      else
        (case extractTokenFromHeader authHeader of
           Inl e \<Rightarrow> Responded (failure 401 ''Invalid or expired token'')
         | Inr token \<Rightarrow>
             (case verifyToken jwt_verify token of
                Inl e \<Rightarrow> Responded (failure 401 ''Invalid or expired token'')
              | Inr decoded \<Rightarrow>
                  (case User_findById d (userId decoded) of
                     Inl e \<Rightarrow> Responded (failure 401 ''Invalid or expired token'')
                   | Inr None \<Rightarrow> Responded (failure 401 ''User not found'')
                   | Inr (Some u) \<Rightarrow> Next u))))"

text \<open>
  A stand-in for the library in closed examples, after the repository's tests: it
  accepts the one token \<open>valid-token\<close>, issued to user \<open>507f1f77bcf86cd799439011\<close>, and
  rejects every other string, the empty one included.
\<close>

definition test_jwt_verify :: jwt_lib where
  "test_jwt_verify token =
     (if token = js ''valid-token'' then Inr \<lparr>userId = js ''507f1f77bcf86cd799439011''\<rparr>
      else Inl (Error ''jwt malformed''))"

definition empty_db :: db where
  "empty_db = \<lparr>users = [], books = [], sections = [], fault = None\<rparr>"

section \<open>UTF-8\<close>

text \<open>
  The cipher service hands strings to Node's \<open>crypto\<close> and \<open>Buffer\<close> with the encodings
  \<open>utf8\<close> and \<open>hex\<close>. The UTF-8 conversions are the library's; they are modelled after
  the Unicode and WHATWG encoding standards, which Node follows.

  Encoding a string as UTF-8 first reads its UTF-16 code units as code points: a high
  surrogate followed by a low surrogate is one code point above \<open>0xFFFF\<close>, and a
  surrogate on its own is replaced by \<open>U+FFFD\<close>.
\<close>

definition is_high_surrogate :: "jschar \<Rightarrow> bool" where
  "is_high_surrogate c \<longleftrightarrow> 0xD800 \<le> unat c \<and> unat c \<le> 0xDBFF"

definition is_low_surrogate :: "jschar \<Rightarrow> bool" where
  "is_low_surrogate c \<longleftrightarrow> 0xDC00 \<le> unat c \<and> unat c \<le> 0xDFFF"

definition unit_code_point :: "jschar \<Rightarrow> nat" where
  "unit_code_point c =
     (if is_high_surrogate c \<or> is_low_surrogate c then 0xFFFD else unat c)"

fun code_points :: "jsstring \<Rightarrow> nat list" where
  "code_points [] = []"
| "code_points [c] = [unit_code_point c]"
| "code_points (c # d # cs) =
     (if is_high_surrogate c \<and> is_low_surrogate d
      then (0x10000 + (unat c - 0xD800) * 0x400 + (unat d - 0xDC00)) # code_points cs
      else unit_code_point c # code_points (d # cs))"

definition utf8_encode_code_point :: "nat \<Rightarrow> nat list" where
  "utf8_encode_code_point cp =
     (if cp < 0x80 then [cp]
      else if cp < 0x800 then [0xC0 + cp div 0x40, 0x80 + cp mod 0x40]
      else if cp < 0x10000
        then [0xE0 + cp div 0x1000, 0x80 + cp div 0x40 mod 0x40, 0x80 + cp mod 0x40]
      else [0xF0 + cp div 0x40000, 0x80 + cp div 0x1000 mod 0x40,
            0x80 + cp div 0x40 mod 0x40, 0x80 + cp mod 0x40])"

text \<open>A Unicode scalar value: a code point that is not a surrogate.\<close>

definition scalar_value :: "nat \<Rightarrow> bool" where
  "scalar_value cp \<longleftrightarrow> cp < 0x110000 \<and> \<not> (0xD800 \<le> cp \<and> cp \<le> 0xDFFF)"


text \<open>\<open>Buffer.from(s, 'utf8')\<close>\<close>

definition utf8_encode :: "jsstring \<Rightarrow> byte list" where
  "utf8_encode s = map of_nat (concat (map utf8_encode_code_point (code_points s)))"

text \<open>
  Decoding UTF-8 never fails: a byte sequence that is not well-formed gives \<open>U+FFFD\<close> and
  the decoder goes on with the first byte it could not use. The bounds on the second byte
  rule out overlong forms, surrogates and code points above \<open>0x10FFFF\<close>.
\<close>

definition is_continuation :: "nat \<Rightarrow> bool" where
  "is_continuation b \<longleftrightarrow> 0x80 \<le> b \<and> b \<le> 0xBF"

definition second_byte_ok :: "nat \<Rightarrow> nat \<Rightarrow> bool" where
  "second_byte_ok b b1 \<longleftrightarrow>
     (if b = 0xE0 then 0xA0 else if b = 0xF0 then 0x90 else 0x80) \<le> b1 \<and>
     b1 \<le> (if b = 0xED then 0x9F else if b = 0xF4 then 0x8F else 0xBF)"

fun utf8_decode_code_points :: "nat list \<Rightarrow> nat list" where
  "utf8_decode_code_points [] = []"
| "utf8_decode_code_points (b # bs) =
     (if b < 0x80 then b # utf8_decode_code_points bs
      else if 0xC2 \<le> b \<and> b \<le> 0xDF then
        (case bs of
           [] \<Rightarrow> [0xFFFD]
         | b1 # r1 \<Rightarrow>
             if is_continuation b1
             then ((b - 0xC0) * 0x40 + (b1 - 0x80)) # utf8_decode_code_points r1
             else 0xFFFD # utf8_decode_code_points bs)
      else if 0xE0 \<le> b \<and> b \<le> 0xEF then
        (case bs of
           [] \<Rightarrow> [0xFFFD]
         | b1 # r1 \<Rightarrow>
             if second_byte_ok b b1 then
               (case r1 of
                  [] \<Rightarrow> [0xFFFD]
                | b2 # r2 \<Rightarrow>
                    if is_continuation b2
                    then ((b - 0xE0) * 0x1000 + (b1 - 0x80) * 0x40 + (b2 - 0x80))
                         # utf8_decode_code_points r2
                    else 0xFFFD # utf8_decode_code_points r1)
             else 0xFFFD # utf8_decode_code_points bs)
      else if 0xF0 \<le> b \<and> b \<le> 0xF4 then
        (case bs of
           [] \<Rightarrow> [0xFFFD]
         | b1 # r1 \<Rightarrow>
             if second_byte_ok b b1 then
               (case r1 of
                  [] \<Rightarrow> [0xFFFD]
                | b2 # r2 \<Rightarrow>
                    if is_continuation b2 then
                      (case r2 of
                         [] \<Rightarrow> [0xFFFD]
                       | b3 # r3 \<Rightarrow>
                           if is_continuation b3
                           then ((b - 0xF0) * 0x40000 + (b1 - 0x80) * 0x1000
                                 + (b2 - 0x80) * 0x40 + (b3 - 0x80))
                                # utf8_decode_code_points r3
                           else 0xFFFD # utf8_decode_code_points r2)
                    else 0xFFFD # utf8_decode_code_points r1)
             else 0xFFFD # utf8_decode_code_points bs)
      else 0xFFFD # utf8_decode_code_points bs)"

definition utf16_encode_code_point :: "nat \<Rightarrow> jsstring" where
  "utf16_encode_code_point cp =
     (if cp < 0x10000 then [of_nat cp]
      else [of_nat (0xD800 + (cp - 0x10000) div 0x400),
            of_nat (0xDC00 + (cp - 0x10000) mod 0x400)])"

text \<open>\<open>buf.toString('utf8')\<close>\<close>

definition utf8_decode :: "byte list \<Rightarrow> jsstring" where
  "utf8_decode bs =
     concat (map utf16_encode_code_point (utf8_decode_code_points (map unat bs)))"

text \<open>
  The strings the specification calls valid UTF-8 text: no surrogate stands on its own.
\<close>

fun well_formed :: "jsstring \<Rightarrow> bool" where
  "well_formed [] = True"
| "well_formed [c] = (\<not> is_high_surrogate c \<and> \<not> is_low_surrogate c)"
| "well_formed (c # d # cs) =
     (if is_high_surrogate c then is_low_surrogate d \<and> well_formed cs
      else \<not> is_low_surrogate c \<and> well_formed (d # cs))"

section \<open>AES-256\<close>

text \<open>
  \<open>crypto.createCipheriv('aes-256-cbc', key, iv)\<close> names the algorithm; its code is the
  library's. The model follows FIPS 197 for the block cipher (\<open>Nk = 8\<close>, \<open>Nr = 14\<close>):
  the state is four columns of four bytes, the S-box and its inverse are the standard's
  tables, and multiplication in \<open>GF(2\<^sup>8)\<close> is built from \<open>xtime\<close>.
\<close>

type_synonym col = "byte \<times> byte \<times> byte \<times> byte"
type_synonym state = "col \<times> col \<times> col \<times> col"

definition sbox_table :: "byte list" where
  "sbox_table = [
      0x63, 0x7C, 0x77, 0x7B, 0xF2, 0x6B, 0x6F, 0xC5, 0x30, 0x01, 0x67, 0x2B, 0xFE, 0xD7, 0xAB, 0x76,
      0xCA, 0x82, 0xC9, 0x7D, 0xFA, 0x59, 0x47, 0xF0, 0xAD, 0xD4, 0xA2, 0xAF, 0x9C, 0xA4, 0x72, 0xC0,
      0xB7, 0xFD, 0x93, 0x26, 0x36, 0x3F, 0xF7, 0xCC, 0x34, 0xA5, 0xE5, 0xF1, 0x71, 0xD8, 0x31, 0x15,
      0x04, 0xC7, 0x23, 0xC3, 0x18, 0x96, 0x05, 0x9A, 0x07, 0x12, 0x80, 0xE2, 0xEB, 0x27, 0xB2, 0x75,
      0x09, 0x83, 0x2C, 0x1A, 0x1B, 0x6E, 0x5A, 0xA0, 0x52, 0x3B, 0xD6, 0xB3, 0x29, 0xE3, 0x2F, 0x84,
      0x53, 0xD1, 0x00, 0xED, 0x20, 0xFC, 0xB1, 0x5B, 0x6A, 0xCB, 0xBE, 0x39, 0x4A, 0x4C, 0x58, 0xCF,
      0xD0, 0xEF, 0xAA, 0xFB, 0x43, 0x4D, 0x33, 0x85, 0x45, 0xF9, 0x02, 0x7F, 0x50, 0x3C, 0x9F, 0xA8,
      0x51, 0xA3, 0x40, 0x8F, 0x92, 0x9D, 0x38, 0xF5, 0xBC, 0xB6, 0xDA, 0x21, 0x10, 0xFF, 0xF3, 0xD2,
      0xCD, 0x0C, 0x13, 0xEC, 0x5F, 0x97, 0x44, 0x17, 0xC4, 0xA7, 0x7E, 0x3D, 0x64, 0x5D, 0x19, 0x73,
      0x60, 0x81, 0x4F, 0xDC, 0x22, 0x2A, 0x90, 0x88, 0x46, 0xEE, 0xB8, 0x14, 0xDE, 0x5E, 0x0B, 0xDB,
      0xE0, 0x32, 0x3A, 0x0A, 0x49, 0x06, 0x24, 0x5C, 0xC2, 0xD3, 0xAC, 0x62, 0x91, 0x95, 0xE4, 0x79,
      0xE7, 0xC8, 0x37, 0x6D, 0x8D, 0xD5, 0x4E, 0xA9, 0x6C, 0x56, 0xF4, 0xEA, 0x65, 0x7A, 0xAE, 0x08,
      0xBA, 0x78, 0x25, 0x2E, 0x1C, 0xA6, 0xB4, 0xC6, 0xE8, 0xDD, 0x74, 0x1F, 0x4B, 0xBD, 0x8B, 0x8A,
      0x70, 0x3E, 0xB5, 0x66, 0x48, 0x03, 0xF6, 0x0E, 0x61, 0x35, 0x57, 0xB9, 0x86, 0xC1, 0x1D, 0x9E,
      0xE1, 0xF8, 0x98, 0x11, 0x69, 0xD9, 0x8E, 0x94, 0x9B, 0x1E, 0x87, 0xE9, 0xCE, 0x55, 0x28, 0xDF,
      0x8C, 0xA1, 0x89, 0x0D, 0xBF, 0xE6, 0x42, 0x68, 0x41, 0x99, 0x2D, 0x0F, 0xB0, 0x54, 0xBB, 0x16]"

definition inv_sbox_table :: "byte list" where
  "inv_sbox_table = [
      0x52, 0x09, 0x6A, 0xD5, 0x30, 0x36, 0xA5, 0x38, 0xBF, 0x40, 0xA3, 0x9E, 0x81, 0xF3, 0xD7, 0xFB,
      0x7C, 0xE3, 0x39, 0x82, 0x9B, 0x2F, 0xFF, 0x87, 0x34, 0x8E, 0x43, 0x44, 0xC4, 0xDE, 0xE9, 0xCB,
      0x54, 0x7B, 0x94, 0x32, 0xA6, 0xC2, 0x23, 0x3D, 0xEE, 0x4C, 0x95, 0x0B, 0x42, 0xFA, 0xC3, 0x4E,
      0x08, 0x2E, 0xA1, 0x66, 0x28, 0xD9, 0x24, 0xB2, 0x76, 0x5B, 0xA2, 0x49, 0x6D, 0x8B, 0xD1, 0x25,
      0x72, 0xF8, 0xF6, 0x64, 0x86, 0x68, 0x98, 0x16, 0xD4, 0xA4, 0x5C, 0xCC, 0x5D, 0x65, 0xB6, 0x92,
      0x6C, 0x70, 0x48, 0x50, 0xFD, 0xED, 0xB9, 0xDA, 0x5E, 0x15, 0x46, 0x57, 0xA7, 0x8D, 0x9D, 0x84,
      0x90, 0xD8, 0xAB, 0x00, 0x8C, 0xBC, 0xD3, 0x0A, 0xF7, 0xE4, 0x58, 0x05, 0xB8, 0xB3, 0x45, 0x06,
      0xD0, 0x2C, 0x1E, 0x8F, 0xCA, 0x3F, 0x0F, 0x02, 0xC1, 0xAF, 0xBD, 0x03, 0x01, 0x13, 0x8A, 0x6B,
      0x3A, 0x91, 0x11, 0x41, 0x4F, 0x67, 0xDC, 0xEA, 0x97, 0xF2, 0xCF, 0xCE, 0xF0, 0xB4, 0xE6, 0x73,
      0x96, 0xAC, 0x74, 0x22, 0xE7, 0xAD, 0x35, 0x85, 0xE2, 0xF9, 0x37, 0xE8, 0x1C, 0x75, 0xDF, 0x6E,
      0x47, 0xF1, 0x1A, 0x71, 0x1D, 0x29, 0xC5, 0x89, 0x6F, 0xB7, 0x62, 0x0E, 0xAA, 0x18, 0xBE, 0x1B,
      0xFC, 0x56, 0x3E, 0x4B, 0xC6, 0xD2, 0x79, 0x20, 0x9A, 0xDB, 0xC0, 0xFE, 0x78, 0xCD, 0x5A, 0xF4,
      0x1F, 0xDD, 0xA8, 0x33, 0x88, 0x07, 0xC7, 0x31, 0xB1, 0x12, 0x10, 0x59, 0x27, 0x80, 0xEC, 0x5F,
      0x60, 0x51, 0x7F, 0xA9, 0x19, 0xB5, 0x4A, 0x0D, 0x2D, 0xE5, 0x7A, 0x9F, 0x93, 0xC9, 0x9C, 0xEF,
      0xA0, 0xE0, 0x3B, 0x4D, 0xAE, 0x2A, 0xF5, 0xB0, 0xC8, 0xEB, 0xBB, 0x3C, 0x83, 0x53, 0x99, 0x61,
      0x17, 0x2B, 0x04, 0x7E, 0xBA, 0x77, 0xD6, 0x26, 0xE1, 0x69, 0x14, 0x63, 0x55, 0x21, 0x0C, 0x7D]"

definition sbox :: "byte \<Rightarrow> byte" where
  "sbox b = sbox_table ! unat b"

definition inv_sbox :: "byte \<Rightarrow> byte" where
  "inv_sbox b = inv_sbox_table ! unat b"

definition xtime :: "byte \<Rightarrow> byte" where
  "xtime b = (if bit b 7 then push_bit 1 b XOR 0x1B else push_bit 1 b)"

definition mul2 :: "byte \<Rightarrow> byte" where "mul2 b = xtime b"
definition mul3 :: "byte \<Rightarrow> byte" where "mul3 b = xtime b XOR b"
definition mul9 :: "byte \<Rightarrow> byte" where "mul9 b = xtime (xtime (xtime b)) XOR b"
definition mul11 :: "byte \<Rightarrow> byte" where
  "mul11 b = xtime (xtime (xtime b)) XOR xtime b XOR b"
definition mul13 :: "byte \<Rightarrow> byte" where
  "mul13 b = xtime (xtime (xtime b)) XOR xtime (xtime b) XOR b"
definition mul14 :: "byte \<Rightarrow> byte" where
  "mul14 b = xtime (xtime (xtime b)) XOR xtime (xtime b) XOR xtime b"

fun map_col :: "(byte \<Rightarrow> byte) \<Rightarrow> col \<Rightarrow> col" where
  "map_col f (a0, a1, a2, a3) = (f a0, f a1, f a2, f a3)"

fun xor_col :: "col \<Rightarrow> col \<Rightarrow> col" where
  "xor_col (a0, a1, a2, a3) (b0, b1, b2, b3) = (a0 XOR b0, a1 XOR b1, a2 XOR b2, a3 XOR b3)"

fun sub_bytes :: "state \<Rightarrow> state" where
  "sub_bytes (c0, c1, c2, c3) = (map_col sbox c0, map_col sbox c1, map_col sbox c2, map_col sbox c3)"

fun inv_sub_bytes :: "state \<Rightarrow> state" where
  "inv_sub_bytes (c0, c1, c2, c3) =
     (map_col inv_sbox c0, map_col inv_sbox c1, map_col inv_sbox c2, map_col inv_sbox c3)"

text \<open>Row \<open>r\<close> of the state moves \<open>r\<close> columns to the left, and back.\<close>

fun shift_rows :: "state \<Rightarrow> state" where
  "shift_rows ((s00, s10, s20, s30), (s01, s11, s21, s31),
               (s02, s12, s22, s32), (s03, s13, s23, s33)) =
     ((s00, s11, s22, s33), (s01, s12, s23, s30),
      (s02, s13, s20, s31), (s03, s10, s21, s32))"

fun inv_shift_rows :: "state \<Rightarrow> state" where
  "inv_shift_rows ((s00, s10, s20, s30), (s01, s11, s21, s31),
                   (s02, s12, s22, s32), (s03, s13, s23, s33)) =
     ((s00, s13, s22, s31), (s01, s10, s23, s32),
      (s02, s11, s20, s33), (s03, s12, s21, s30))"

fun mix_column :: "col \<Rightarrow> col" where
  "mix_column (a0, a1, a2, a3) =
     (mul2 a0 XOR mul3 a1 XOR a2 XOR a3,
      a0 XOR mul2 a1 XOR mul3 a2 XOR a3,
      a0 XOR a1 XOR mul2 a2 XOR mul3 a3,
      mul3 a0 XOR a1 XOR a2 XOR mul2 a3)"

fun inv_mix_column :: "col \<Rightarrow> col" where
  "inv_mix_column (a0, a1, a2, a3) =
     (mul14 a0 XOR mul11 a1 XOR mul13 a2 XOR mul9 a3,
      mul9 a0 XOR mul14 a1 XOR mul11 a2 XOR mul13 a3,
      mul13 a0 XOR mul9 a1 XOR mul14 a2 XOR mul11 a3,
      mul11 a0 XOR mul13 a1 XOR mul9 a2 XOR mul14 a3)"

fun mix_columns :: "state \<Rightarrow> state" where
  "mix_columns (c0, c1, c2, c3) = (mix_column c0, mix_column c1, mix_column c2, mix_column c3)"

fun inv_mix_columns :: "state \<Rightarrow> state" where
  "inv_mix_columns (c0, c1, c2, c3) =
     (inv_mix_column c0, inv_mix_column c1, inv_mix_column c2, inv_mix_column c3)"

fun add_round_key :: "state \<Rightarrow> state \<Rightarrow> state" where
  "add_round_key (k0, k1, k2, k3) (c0, c1, c2, c3) =
     (xor_col c0 k0, xor_col c1 k1, xor_col c2 k2, xor_col c3 k3)"

text \<open>
  The key expansion: the 32 key bytes are the first 8 words, and each further word
  \<open>w[i]\<close>, up to 60 words, is \<open>w[i - 8]\<close> XOR a word made from \<open>w[i - 1]\<close>. The
  index \<open>i\<close> of the next word is the number of words made so far.
\<close>

fun rot_word :: "col \<Rightarrow> col" where
  "rot_word (a0, a1, a2, a3) = (a1, a2, a3, a0)"

definition sub_word :: "col \<Rightarrow> col" where
  "sub_word w = map_col sbox w"

definition rcon :: "nat \<Rightarrow> col" where
  "rcon j = ((xtime ^^ (j - 1)) 1, 0, 0, 0)"

definition key_words :: "byte list \<Rightarrow> col list" where
  "key_words k =
     map (\<lambda>i. (k ! (4 * i), k ! (4 * i + 1), k ! (4 * i + 2), k ! (4 * i + 3))) [0..<8]"

fun expand_from :: "nat \<Rightarrow> col list \<Rightarrow> col list" where
  "expand_from 0 w = w"
| "expand_from (Suc n) w =
     (let i = length w;
          temp = w ! (i - 1);
          temp' = (if i mod 8 = 0 then xor_col (sub_word (rot_word temp)) (rcon (i div 8))
                   else if i mod 8 = 4 then sub_word temp
                   else temp)
      in expand_from n (w @ [xor_col (w ! (i - 8)) temp']))"

definition key_expansion :: "byte list \<Rightarrow> col list" where
  "key_expansion k = expand_from 52 (key_words k)"

definition round_key :: "col list \<Rightarrow> nat \<Rightarrow> state" where
  "round_key w r = (w ! (4 * r), w ! (4 * r + 1), w ! (4 * r + 2), w ! (4 * r + 3))"

text \<open>The rounds \<open>1 .. Nr - 1\<close>, forwards and backwards, with their round keys in the
  order they are used.\<close>

fun cipher_rounds :: "state list \<Rightarrow> state \<Rightarrow> state" where
  "cipher_rounds [] s = s"
| "cipher_rounds (k # ks) s =
     cipher_rounds ks (add_round_key k (mix_columns (shift_rows (sub_bytes s))))"

fun inv_cipher_rounds :: "state list \<Rightarrow> state \<Rightarrow> state" where
  "inv_cipher_rounds [] s = s"
| "inv_cipher_rounds (k # ks) s =
     inv_cipher_rounds ks
       (inv_mix_columns (add_round_key k (inv_sub_bytes (inv_shift_rows s))))"

definition cipher :: "col list \<Rightarrow> state \<Rightarrow> state" where
  "cipher w s =
     (let s0 = add_round_key (round_key w 0) s;
          s1 = cipher_rounds (map (round_key w) [1..<14]) s0
      in add_round_key (round_key w 14) (shift_rows (sub_bytes s1)))"

definition inv_cipher :: "col list \<Rightarrow> state \<Rightarrow> state" where
  "inv_cipher w s =
     (let s0 = add_round_key (round_key w 14) s;
          s1 = inv_cipher_rounds (map (round_key w) (rev [1..<14])) s0
      in add_round_key (round_key w 0) (inv_sub_bytes (inv_shift_rows s1)))"

section \<open>CBC mode with PKCS#7 padding\<close>

text \<open>
  A block of 16 bytes is read into the state column by column. The functions below are
  applied to lists of exactly 16 bytes only.
\<close>

definition state_of_block :: "byte list \<Rightarrow> state" where
  "state_of_block b =
     ((b ! 0, b ! 1, b ! 2, b ! 3), (b ! 4, b ! 5, b ! 6, b ! 7),
      (b ! 8, b ! 9, b ! 10, b ! 11), (b ! 12, b ! 13, b ! 14, b ! 15))"

fun block_of_state :: "state \<Rightarrow> byte list" where
  "block_of_state ((b0, b1, b2, b3), (b4, b5, b6, b7), (b8, b9, b10, b11),
                   (b12, b13, b14, b15)) =
     [b0, b1, b2, b3, b4, b5, b6, b7, b8, b9, b10, b11, b12, b13, b14, b15]"

definition encrypt_block :: "col list \<Rightarrow> byte list \<Rightarrow> byte list" where
  "encrypt_block w b = block_of_state (cipher w (state_of_block b))"

definition decrypt_block :: "col list \<Rightarrow> byte list \<Rightarrow> byte list" where
  "decrypt_block w b = block_of_state (inv_cipher w (state_of_block b))"

definition xor_block :: "byte list \<Rightarrow> byte list \<Rightarrow> byte list" where
  "xor_block a b = map (\<lambda>(x, y). x XOR y) (zip a b)"

text \<open>The padding adds between 1 and 16 bytes, each holding the number of bytes added.\<close>

definition pkcs7_pad :: "byte list \<Rightarrow> byte list" where
  "pkcs7_pad bs = (let n = 16 - length bs mod 16 in bs @ replicate n (of_nat n))"

definition pkcs7_unpad :: "byte list \<Rightarrow> byte list option" where
  "pkcs7_unpad bs =
     (if bs = [] then None
      else let n = unat (last bs)
           in if n = 0 \<or> n > 16 \<or> n > length bs then None
              else if drop (length bs - n) bs = replicate n (last bs)
                   then Some (take (length bs - n) bs)
                   else None)"

text \<open>Each block is XORed with the ciphertext block before it (the IV for the first
  block) and then encrypted; decryption undoes the two steps. Bytes after the last
  whole block are not read: the callers pass whole blocks only.\<close>

function cbc_encrypt :: "col list \<Rightarrow> byte list \<Rightarrow> byte list \<Rightarrow> byte list" where
  "cbc_encrypt w prev bs =
     (if length bs < 16 then []
      else let c = encrypt_block w (xor_block (take 16 bs) prev)
           in c @ cbc_encrypt w c (drop 16 bs))"
  by pat_completeness auto
termination
  by (relation "measure (\<lambda>(w, prev, bs). length bs)") auto

function cbc_decrypt :: "col list \<Rightarrow> byte list \<Rightarrow> byte list \<Rightarrow> byte list" where
  "cbc_decrypt w prev bs =
     (if length bs < 16 then []
      else let c = take 16 bs
           in xor_block (decrypt_block w c) prev @ cbc_decrypt w c (drop 16 bs))"
  by pat_completeness auto
termination
  by (relation "measure (\<lambda>(w, prev, bs). length bs)") auto

section \<open>EncryptionService\<close>

record EncryptionService =
  secretKey :: jsstring
  iv :: jsstring

text \<open>
  The constructor reads \<open>process.env.AES_SECRET_KEY\<close> and \<open>process.env.AES_IV\<close>, each a
  string or undefined, and checks \<open>length\<close>, which counts UTF-16 code units.
\<close>

definition new_EncryptionService ::
  "jsstring option \<Rightarrow> jsstring option \<Rightarrow> js_error + EncryptionService" where
  "new_EncryptionService env_key env_iv =
     (case env_key of
        None \<Rightarrow> Inl (Error ''AES_SECRET_KEY must be exactly 32 characters long'')
      | Some k \<Rightarrow>
          if k = [] \<or> length k \<noteq> 32
          then Inl (Error ''AES_SECRET_KEY must be exactly 32 characters long'')
          else
            (case env_iv of
               None \<Rightarrow> Inl (Error ''AES_IV must be exactly 16 characters long'')
             | Some v \<Rightarrow>
                 if v = [] \<or> length v \<noteq> 16
                 then Inl (Error ''AES_IV must be exactly 16 characters long'')
                 else Inr \<lparr>secretKey = k, iv = v\<rparr>))"

text \<open>
  \<open>createCipheriv\<close> and \<open>createDecipheriv\<close> take \<open>Buffer.from(this.secretKey)\<close> and
  \<open>Buffer.from(this.iv)\<close>, the UTF-8 bytes of the two strings, and throw unless the IV
  has 16 bytes and the key 32; the IV is checked first.
\<close>

definition create_cipher :: "EncryptionService \<Rightarrow> crypto_error + (col list \<times> byte list)" where
  "create_cipher svc =
     (let k = utf8_encode (secretKey svc); v = utf8_encode (iv svc)
      in if length v \<noteq> 16 then Inl InvalidIV
         else if length k \<noteq> 32 then Inl InvalidKeyLength
         else Inr (key_expansion k, v))"

definition encrypt :: "EncryptionService \<Rightarrow> jsstring \<Rightarrow> js_error + jsstring" where
  "encrypt svc plain =
     (case create_cipher svc of
        Inl e \<Rightarrow> Inl (EncryptionFailed e)
      | Inr (w, v) \<Rightarrow> Inr (hex_encode (cbc_encrypt w v (pkcs7_pad (utf8_encode plain)))))"

text \<open>
  \<open>decipher.update(encryptedText, 'hex', 'utf8')\<close> throws when the string has an odd
  number of characters; otherwise it reads the bytes the string writes, up to the first
  pair that is not two hexadecimal digits. \<open>decipher.final\<close> throws when the input is
  empty or not a whole number of blocks, and when the last block does not end in a valid
  padding.
\<close>

definition decrypt :: "EncryptionService \<Rightarrow> jsstring \<Rightarrow> js_error + jsstring" where
  "decrypt svc encryptedText =
     (case create_cipher svc of
        Inl e \<Rightarrow> Inl (DecryptionFailed e)
      | Inr (w, v) \<Rightarrow>
          if length encryptedText mod 2 \<noteq> 0 then Inl (DecryptionFailed InvalidHexLength)
          else
            (let bs = hex_decode encryptedText
             in if bs = [] \<or> length bs mod 16 \<noteq> 0
                then Inl (DecryptionFailed WrongFinalBlockLength)
                else
                  (case pkcs7_unpad (cbc_decrypt w v bs) of
                     None \<Rightarrow> Inl (DecryptionFailed BadDecrypt)
                   | Some p \<Rightarrow> Inr (utf8_decode p))))"


declare cbc_encrypt.simps [simp del] cbc_decrypt.simps [simp del]

text \<open>A service for closed examples, with the key and IV of the repository's tests.\<close>

definition test_service :: EncryptionService where
  "test_service =
     \<lparr>secretKey = js ''12345678901234567890123456789012'', iv = js ''1234567890123456''\<rparr>"


section \<open>Book and Section models\<close>

text \<open>
  The schemas' setters, validators and hooks. A \<open>trim: true\<close> path is trimmed when it is
  set; \<open>save()\<close> runs the validators first and fails with the messages of those that do
  not hold; then the \<open>pre('save')\<close> hook runs; then the document is written, unless the
  storage engine rejects the write.
\<close>

definition validate_book :: "book \<Rightarrow> string list" where
  "validate_book b =
     (if b_title b = [] then [''Book title is required'']
      else if length (b_title b) > 200 then [''Book title cannot exceed 200 characters'']
      else [])
     @ (case b_description b of
          None \<Rightarrow> []
        | Some dsc \<Rightarrow>
            if length dsc > 1000 then [''Description cannot exceed 1000 characters''] else [])"

definition replace_book :: "book \<Rightarrow> book list \<Rightarrow> book list" where
  "replace_book b bs = map (\<lambda>x. if b_id x = b_id b then b else x) bs"

text \<open>
  \<open>book.save()\<close> of a document that was loaded as \<open>loaded\<close> and now holds \<open>b\<close>. The
  timestamps plugin sets \<open>updatedAt\<close> only when a path was modified, that is when a value
  that was set differs from the one loaded.
\<close>

definition Book_save :: "db \<Rightarrow> nat \<Rightarrow> book \<Rightarrow> book \<Rightarrow> js_error + (book \<times> db)" where
  "Book_save d now loaded b =
     (case validate_book b of
        e # es \<Rightarrow> Inl (ValidationError (e # es))
      | [] \<Rightarrow>
          (case store_call d () of
             Inl e \<Rightarrow> Inl e
           | Inr u \<Rightarrow>
               (let b' = (if b = loaded then b else b\<lparr>b_updatedAt := now\<rparr>)
                in Inr (b', d\<lparr>books := replace_book b' (books d)\<rparr>))))"

text \<open>
  The \<open>order\<close> of a section is a JavaScript number, a double. The model holds the orders
  that are whole numbers, as integers, and \<open>js_add_one\<close> is \<open>order + 1\<close> on them: the sum
  is exact while it is a double, which every whole number of magnitude up to \<open>2\<^sup>5\<^sup>3\<close> is.
  Beyond, the doubles are the multiples of 2 up to magnitude \<open>2\<^sup>5\<^sup>4\<close> and multiples of
  4 or more after it, and the sum is rounded to the nearest double, a tie going to the
  one whose significand is even: between \<open>2\<^sup>5\<^sup>3\<close> and \<open>2\<^sup>5\<^sup>4\<close> in magnitude that is
  the multiple of 4 among \<open>n\<close> and \<open>n + 2\<close>, and after it \<open>n\<close> itself.
\<close>

definition js_add_one :: "int \<Rightarrow> int" where
  "js_add_one n =
     (if - (2 ^ 53) \<le> n \<and> n < 2 ^ 53 then n + 1
      else if - (2 ^ 54) < n \<and> n < 2 ^ 54 then (if n mod 4 = 0 then n else n + 2)
      else n)"

text \<open>\<open>new Section({title, story, book, order})\<close>, with the defaults of the schema.\<close>

definition new_Section :: "oid \<Rightarrow> nat \<Rightarrow> jsstring \<Rightarrow> jsstring \<Rightarrow> oid \<Rightarrow> int \<Rightarrow> section_doc" where
  "new_Section new_id now title story bookId ord =
     \<lparr>s_id = new_id, s_title = trim title, s_story = trim story, s_book = bookId,
      s_order = ord, s_wordCount = 0, s_createdAt = now, s_updatedAt = now\<rparr>"

definition validate_section :: "section_doc \<Rightarrow> string list" where
  "validate_section s =
     (if s_title s = [] then [''Section title is required'']
      else if length (s_title s) > 200 then [''Title cannot be more than 200 characters'']
      else [])
     @ (if s_order s < 0 then [''Order cannot be negative''] else [])"

text \<open>
  \<open>sectionSchema.pre('save')\<close>: when the story path is modified, the word count is
  derived from \<open>this.story\<close>, the value the document holds at that moment.
\<close>

definition pre_save :: "bool \<Rightarrow> section_doc \<Rightarrow> section_doc" where
  "pre_save story_modified s =
     (if story_modified then s\<lparr>s_wordCount := derive_wordCount (s_story s)\<rparr> else s)"

text \<open>Saving a new section: the story was set by the constructor, so it is modified.\<close>

definition Section_save_new :: "db \<Rightarrow> section_doc \<Rightarrow> js_error + (section_doc \<times> db)" where
  "Section_save_new d s =
     (case validate_section s of
        e # es \<Rightarrow> Inl (ValidationError (e # es))
      | [] \<Rightarrow>
          (let s' = pre_save True s
           in case store_call d () of
                Inl e \<Rightarrow> Inl e
              | Inr u \<Rightarrow> Inr (s', d\<lparr>sections := sections d @ [s']\<rparr>)))"

section \<open>Queries\<close>

text \<open>
  \<open>Book.findOne({ _id: bookId, user: req.user._id })\<close>. The route parameter \<open>bookId\<close>
  is a string and is cast in every query that uses it; \<open>req.user._id\<close> is the ObjectId of
  the user the middleware loaded.
\<close>

definition Book_findOne :: "db \<Rightarrow> jsstring \<Rightarrow> oid \<Rightarrow> js_error + book option" where
  "Book_findOne d bookId uid =
     query_by_id d bookId (\<lambda>i. find (\<lambda>b. b_id b = i \<and> b_user b = uid) (books d))"

text \<open>\<open>Section.find({ book: bookId }).sort({ order: 1, createdAt: 1 })\<close>: the sections
  of the book, by ascending order and, within one order, by ascending creation time.
  Sections equal in both are given here in the order of the collection.\<close>

definition Section_find_sorted :: "db \<Rightarrow> jsstring \<Rightarrow> js_error + section_doc list" where
  "Section_find_sorted d bookId =
     query_by_id d bookId
       (\<lambda>i. sort_key (\<lambda>s. (s_order s, s_createdAt s))
              (filter (\<lambda>s. s_book s = i) (sections d)))"

text \<open>\<open>Section.findOne({ book: bookId }).sort({ order: -1 })\<close>: the first section of the
  book in descending order of \<open>order\<close>, or null.\<close>

definition Section_findOne_last :: "db \<Rightarrow> jsstring \<Rightarrow> js_error + section_doc option" where
  "Section_findOne_last d bookId =
     query_by_id d bookId
       (\<lambda>i. case sort_key (\<lambda>s. - s_order s) (filter (\<lambda>s. s_book s = i) (sections d)) of
              [] \<Rightarrow> None
            | s # rest \<Rightarrow> Some s)"

text \<open>\<open>Section.deleteMany({ book: bookId })\<close> and \<open>Book.findByIdAndDelete(bookId)\<close>, which
  removes one document.\<close>

definition Section_deleteMany :: "db \<Rightarrow> jsstring \<Rightarrow> js_error + db" where
  "Section_deleteMany d bookId =
     query_by_id d bookId (\<lambda>i. d\<lparr>sections := filter (\<lambda>s. s_book s \<noteq> i) (sections d)\<rparr>)"

fun delete_first :: "('a \<Rightarrow> bool) \<Rightarrow> 'a list \<Rightarrow> 'a list" where
  "delete_first P [] = []"
| "delete_first P (x # xs) = (if P x then xs else x # delete_first P xs)"

definition Book_findByIdAndDelete :: "db \<Rightarrow> jsstring \<Rightarrow> js_error + db" where
  "Book_findByIdAndDelete d bookId =
     query_by_id d bookId (\<lambda>i. d\<lparr>books := delete_first (\<lambda>b. b_id b = i) (books d)\<rparr>)"

section \<open>Book controller\<close>

text \<open>
  Each handler takes the store, the authenticated user (\<open>req.user\<close>), the route
  parameter \<open>bookId\<close> and the fields of the body, and gives the response it sends; a
  handler that writes also gives the store it leaves. Whatever is thrown inside the
  \<open>try\<close> block reaches the handler's \<open>catch\<close>, which answers 500 with the error's
  message. New identifiers and the clock are inputs.
\<close>

definition ok :: "nat \<Rightarrow> string option \<Rightarrow> nat option \<Rightarrow> payload \<Rightarrow> response" where
  "ok st msg cnt p =
     \<lparr>status = st, success = True, message = msg, count = cnt, data = p, error = None\<rparr>"

definition getBook :: "db \<Rightarrow> user \<Rightarrow> jsstring \<Rightarrow> response" where
  "getBook d u bookId =
     (case Book_findOne d bookId (u_id u) of
        Inl e \<Rightarrow> failure_with 500 ''Failed to fetch book'' e
      | Inr None \<Rightarrow> failure 404 ''Book not found''
      | Inr (Some b) \<Rightarrow> ok 200 None None (BookData b))"

definition updateBook ::
  "db \<Rightarrow> nat \<Rightarrow> user \<Rightarrow> jsstring \<Rightarrow> jsstring option \<Rightarrow> jsstring option
     \<Rightarrow> bool option \<Rightarrow> response \<times> db" where
  "updateBook d now u bookId title description isPublished =
     (case Book_findOne d bookId (u_id u) of
        Inl e \<Rightarrow> (failure_with 500 ''Failed to update book'' e, d)
      | Inr None \<Rightarrow> (failure 404 ''Book not found'', d)
      | Inr (Some b) \<Rightarrow>
          (let b1 = (case title of None \<Rightarrow> b | Some t \<Rightarrow> b\<lparr>b_title := trim t\<rparr>);
               b2 = (case description of
                       None \<Rightarrow> b1
                     | Some dsc \<Rightarrow> b1\<lparr>b_description := Some (trim dsc)\<rparr>);
               b3 = (case isPublished of None \<Rightarrow> b2 | Some p \<Rightarrow> b2\<lparr>b_isPublished := p\<rparr>)
           in case Book_save d now b b3 of
                Inl e \<Rightarrow> (failure_with 500 ''Failed to update book'' e, d)
              | Inr (b', d') \<Rightarrow>
                  (ok 200 (Some ''Book updated successfully'') None (BookData b'), d')))"

definition deleteBook :: "db \<Rightarrow> user \<Rightarrow> jsstring \<Rightarrow> response \<times> db" where
  "deleteBook d u bookId =
     (case Book_findOne d bookId (u_id u) of
        Inl e \<Rightarrow> (failure_with 500 ''Failed to delete book'' e, d)
      | Inr None \<Rightarrow> (failure 404 ''Book not found'', d)
      | Inr (Some b) \<Rightarrow>
          (case Section_deleteMany d bookId of
             Inl e \<Rightarrow> (failure_with 500 ''Failed to delete book'' e, d)
           | Inr d1 \<Rightarrow>
               (case Book_findByIdAndDelete d1 bookId of
                  Inl e \<Rightarrow> (failure_with 500 ''Failed to delete book'' e, d1)
                | Inr d2 \<Rightarrow>
                    (ok 200 (Some ''Book and all its sections deleted successfully'') None
                       NoData, d2))))"

text \<open>The story of one section for the listing: decrypted, or the placeholder when
  \<open>decrypt\<close> throws.\<close>

definition decrypt_section :: "EncryptionService \<Rightarrow> section_doc \<Rightarrow> section_doc" where
  "decrypt_section svc s =
     (case decrypt svc (s_story s) of
        Inr plain \<Rightarrow> s\<lparr>s_story := plain\<rparr>
      | Inl e \<Rightarrow> s\<lparr>s_story := js ''[Encryption Error]''\<rparr>)"

definition getBookSections ::
  "db \<Rightarrow> EncryptionService \<Rightarrow> user \<Rightarrow> jsstring \<Rightarrow> response" where
  "getBookSections d svc u bookId =
     (case Book_findOne d bookId (u_id u) of
        Inl e \<Rightarrow> failure_with 500 ''Failed to fetch book sections'' e
      | Inr None \<Rightarrow> failure 404 ''Book not found''
      | Inr (Some b) \<Rightarrow>
          (case Section_find_sorted d bookId of
             Inl e \<Rightarrow> failure_with 500 ''Failed to fetch book sections'' e
           | Inr secs \<Rightarrow>
               (let decryptedSections = map (decrypt_section svc) secs
                in ok 200 None (Some (length decryptedSections))
                     (SectionsData b decryptedSections))))"

text \<open>
  \<open>new Section({ title, story: encryptedStory, book: bookId, order })\<close> casts \<open>bookId\<close>
  once more; the lookup of the book has succeeded with that string, so the cast gives the
  identifier of the book found.
\<close>

definition addSection ::
  "db \<Rightarrow> EncryptionService \<Rightarrow> oid \<Rightarrow> nat \<Rightarrow> user \<Rightarrow> jsstring \<Rightarrow> jsstring \<Rightarrow> jsstring
     \<Rightarrow> response \<times> db" where
  "addSection d svc new_id now u bookId title story =
     (case Book_findOne d bookId (u_id u) of
        Inl e \<Rightarrow> (failure_with 500 ''Failed to add section'' e, d)
      | Inr None \<Rightarrow> (failure 404 ''Book not found'', d)
      | Inr (Some b) \<Rightarrow>
          (case Section_findOne_last d bookId of
             Inl e \<Rightarrow> (failure_with 500 ''Failed to add section'' e, d)
           | Inr lastSection \<Rightarrow>
               (let ord = (case lastSection of Some l \<Rightarrow> js_add_one (s_order l) | None \<Rightarrow> 1)
                in case encrypt svc story of
                     Inl e \<Rightarrow> (failure_with 500 ''Failed to add section'' e, d)
                   | Inr encryptedStory \<Rightarrow>
                       (case Section_save_new d
                               (new_Section new_id now title encryptedStory (b_id b) ord) of
                          Inl e \<Rightarrow> (failure_with 500 ''Failed to add section'' e, d)
                        | Inr (saved, d') \<Rightarrow>
                            (ok 201 (Some ''Section added successfully'') None
                               (SectionData (saved\<lparr>s_story := story\<rparr>)), d')))))"

text \<open>
  The specification's words for the order of a new section: one more than the largest
  order among the sections of the book \<open>i\<close>, or 1 when the book has none.
\<close>

definition spec_next_order :: "db \<Rightarrow> oid \<Rightarrow> int" where
  "spec_next_order d i =
     (let orders = map s_order (filter (\<lambda>s. s_book s = i) (sections d))
      in if orders = [] then 1 else Max (set orders) + 1)"


text \<open>Fixtures for closed examples: one user, one book of that user, and a second user.\<close>

definition alice :: user where
  "alice = \<lparr>u_id = ObjectId ''507f1f77bcf86cd799439011'', u_email = js ''a@x.com'', u_password = None\<rparr>"

definition bob :: user where
  "bob = \<lparr>u_id = ObjectId ''507f1f77bcf86cd799439012'', u_email = js ''b@x.com'', u_password = None\<rparr>"

definition my_book :: book where
  "my_book =
     \<lparr>b_id = ObjectId ''64b000000000000000000001'', b_title = js ''My Book'',
      b_user = ObjectId ''507f1f77bcf86cd799439011'', b_description = None, b_isPublished = False,
      b_createdAt = 1, b_updatedAt = 1\<rparr>"

definition book_db :: db where
  "book_db = \<lparr>users = [alice, bob], books = [my_book], sections = [], fault = None\<rparr>"

text \<open>A stored section of that book, and what the service stores for a plaintext.\<close>

definition stored_section :: "oid \<Rightarrow> int \<Rightarrow> jsstring \<Rightarrow> section_doc" where
  "stored_section i ord stored_story =
     \<lparr>s_id = i, s_title = js ''Ch'', s_story = stored_story,
      s_book = ObjectId ''64b000000000000000000001'', s_order = ord, s_wordCount = 1,
      s_createdAt = 2, s_updatedAt = 2\<rparr>"

definition ciphertext_of :: "jsstring \<Rightarrow> jsstring" where
  "ciphertext_of plain = (case encrypt test_service plain of Inr c \<Rightarrow> c | Inl e \<Rightarrow> [])"


section \<open>Verification: the word count\<close>

lemma tokens_dropWhile_ws: "tokens (dropWhile is_whitespace cs) = tokens cs"
  by (induction cs) auto

lemma tokens_run_end:
  assumes "xs \<noteq> []" and "\<forall>x\<in>set xs. \<not> is_whitespace x"
  shows "tokens xs = [xs]"
proof -
  obtain y ys where xs: "xs = y # ys" using assms(1) by (cases xs) auto
  have run: "takeWhile (\<lambda>x. \<not> is_whitespace x) ys = ys"
    "dropWhile (\<lambda>x. \<not> is_whitespace x) ys = []"
    using assms(2) xs by auto
  have "\<not> is_whitespace y" using assms(2) xs by simp
  then show ?thesis unfolding xs by (simp add: run)
qed

lemma tokens_run_ws:
  assumes "xs \<noteq> []" and "\<forall>x\<in>set xs. \<not> is_whitespace x" and "is_whitespace c"
  shows "tokens (xs @ c # cs) = xs # tokens cs"
proof -
  obtain y ys where xs: "xs = y # ys" using assms(1) by (cases xs) auto
  have ys: "\<forall>x\<in>set ys. \<not> is_whitespace x" and y: "\<not> is_whitespace y"
    using assms(2) xs by auto
  have "takeWhile (\<lambda>x. \<not> is_whitespace x) (ys @ c # cs) = ys"
    using ys assms(3) by simp
  moreover have "dropWhile (\<lambda>x. \<not> is_whitespace x) (ys @ c # cs) = c # cs"
    using ys assms(3) by simp
  ultimately show ?thesis using y assms(3) unfolding xs by simp
qed

text \<open>The tokens are what the specification says they are: non-empty, free of
  whitespace, and together they hold every non-whitespace character in order.\<close>

lemma tokens_sound:
  "t \<in> set (tokens s) \<Longrightarrow> t \<noteq> [] \<and> (\<forall>x\<in>set t. \<not> is_whitespace x)"
proof (induction s rule: tokens.induct)
  case 1
  then show ?case by simp
next
  case (2 c cs)
  show ?case
  proof (cases "is_whitespace c")
    case True
    then have "t \<in> set (tokens cs)" using "2.prems" by simp
    then show ?thesis by (rule "2.IH"(1) [OF True])
  next
    case False
    then consider (head) "t = c # takeWhile (\<lambda>x. \<not> is_whitespace x) cs"
      | (rest) "t \<in> set (tokens (dropWhile (\<lambda>x. \<not> is_whitespace x) cs))"
      using "2.prems" by auto
    then show ?thesis
    proof cases
      case head
      have "\<forall>x\<in>set (takeWhile (\<lambda>x. \<not> is_whitespace x) cs). \<not> is_whitespace x"
        using set_takeWhileD [of _ "\<lambda>x. \<not> is_whitespace x" cs] by blast
      then show ?thesis using head False by simp
    next
      case rest
      then show ?thesis by (rule "2.IH"(2) [OF False])
    qed
  qed
qed

lemma tokens_complete: "concat (tokens s) = filter (\<lambda>x. \<not> is_whitespace x) s"
proof (induction s rule: tokens.induct)
  case 1
  then show ?case by simp
next
  case (2 c cs)
  have "takeWhile (\<lambda>x. \<not> is_whitespace x) cs
          @ filter (\<lambda>x. \<not> is_whitespace x) (dropWhile (\<lambda>x. \<not> is_whitespace x) cs)
        = filter (\<lambda>x. \<not> is_whitespace x) cs"
    by (induction cs) auto
  with 2 show ?case by simp
qed

text \<open>What \<open>split\<close> and \<open>filter\<close> compute, with any piece already read.\<close>

lemma split_ws_from_tokens:
  "\<forall>x\<in>set cur. \<not> is_whitespace x \<Longrightarrow>
   filter (\<lambda>word. length word > 0) (split_ws_from cur s) = tokens (cur @ s)"
proof (induction cur s rule: split_ws_from.induct)
  case (1 cur)
  then show ?case by (cases "cur = []") (simp_all add: tokens_run_end)
next
  case (2 cur c cs)
  show ?case
  proof (cases "is_whitespace c")
    case True
    have "filter (\<lambda>word. length word > 0) (split_ws_from [] (dropWhile is_whitespace cs))
          = tokens cs"
      using "2.IH"(1) [OF True] by (simp add: tokens_dropWhile_ws)
    then show ?thesis using True "2.prems"
      by (cases "cur = []") (simp_all add: tokens_run_ws)
  next
    case False
    then show ?thesis using "2.IH"(2) "2.prems" by simp
  qed
qed

lemma derive_wordCount_tokens: "derive_wordCount s = spec_wordCount s"
  using split_ws_from_tokens [of "[]" "trim s"]
  by (simp add: derive_wordCount_def spec_wordCount_def split_ws_def Let_def)

text \<open>
  C9. The word count derived when a section's story changes is 0 when the trimmed story
  is empty, and otherwise the number of maximal whitespace-delimited non-empty tokens of
  the trimmed story; the empty story gives 0, the story with runs of blanks around three
  words gives 3, and \<open>This is a test story content.\<close> gives 6.
\<close>

theorem wordCount_derivation:
  "s_wordCount (pre_save True sec) = derive_wordCount (s_story sec)
   \<and> derive_wordCount s = (if trim s = [] then 0 else length (tokens (trim s)))
   \<and> derive_wordCount (js '''') = 0
   \<and> derive_wordCount (js ''  word1   word2  word3  '') = 3
   \<and> derive_wordCount (js ''This is a test story content.'') = 6"
proof (intro conjI)
  show "s_wordCount (pre_save True sec) = derive_wordCount (s_story sec)"
    by (simp add: pre_save_def)
  show "derive_wordCount s = (if trim s = [] then 0 else length (tokens (trim s)))"
    using derive_wordCount_tokens [of s] by (simp add: spec_wordCount_def)
  show "derive_wordCount (js '''') = 0"
    by code_simp
  show "derive_wordCount (js ''  word1   word2  word3  '') = 3"
    by code_simp
  show "derive_wordCount (js ''This is a test story content.'') = 6"
    by code_simp
qed

section \<open>Verification: the auth middleware\<close>

lemma extract_Bearer_only: "extractTokenFromHeader (Some (js ''Bearer '')) = Inr []"
  by (simp add: extractTokenFromHeader_def startsWith_def substring_def js_def)

text \<open>The middleware has no branch that answers 500: whenever it responds, the status
  is 401.\<close>

lemma authenticateToken_status:
  "authenticateToken jwt_verify d authHeader = Responded r \<Longrightarrow> status r = 401"
  by (auto simp add: authenticateToken_def failure_def split: if_splits sum.splits option.splits)

text \<open>
  C4. When extraction and verification succeed and the user lookup is rejected by the
  store, the specification asks for status 500 with message \<open>Authentication failed\<close>.
  The handler's single \<open>catch\<close> answers 401 with \<open>Invalid or expired token\<close>: here at
  the input of the repository's own test (token \<open>valid-token\<close>, lookup rejected with
  \<open>Database error\<close>).
\<close>

theorem authenticateToken_store_fault:
  "authenticateToken test_jwt_verify (empty_db\<lparr>fault := Some ''Database error''\<rparr>)
     (Some (js ''Bearer valid-token''))
   = Responded (failure 401 ''Invalid or expired token'')"
  by (simp add: authenticateToken_def extractTokenFromHeader_def startsWith_def
      substring_def js_def verifyToken_def test_jwt_verify_def User_findById_def
      query_by_id_def cast_ObjectId_def hex_value_def store_call_def empty_db_def)

text \<open>
  C5. When the token verifies and the store holds no user of that id, the
  specification asks for 401 with message \<open>Invalid or expired token\<close>. The handler
  answers 401 with message \<open>User not found\<close>.
\<close>

theorem authenticateToken_unknown_user:
  "authenticateToken test_jwt_verify empty_db (Some (js ''Bearer valid-token''))
   = Responded (failure 401 ''User not found'')"
  by (simp add: authenticateToken_def extractTokenFromHeader_def startsWith_def
      substring_def js_def verifyToken_def test_jwt_verify_def User_findById_def
      query_by_id_def cast_ObjectId_def hex_value_def store_call_def empty_db_def)

text \<open>
  C6, as the code has it. For the header \<open>Bearer \<close> with nothing after the blank, the
  extraction does not fail: it returns the empty token. The middleware then rejects the
  request with status 401 and message \<open>Invalid or expired token\<close> whenever the
  verification of the empty token fails.
\<close>

theorem bearer_empty_remainder:
  assumes "jwt_verify [] = Inl e"
  shows "extractTokenFromHeader (Some (js ''Bearer '')) = Inr []
     \<and> authenticateToken jwt_verify d (Some (js ''Bearer ''))
       = Responded (failure 401 ''Invalid or expired token'')"
proof -
  have "Some (js ''Bearer '') \<noteq> Some []"
    by (simp add: js_def)
  then show ?thesis
    using assms
    by (simp add: authenticateToken_def extract_Bearer_only verifyToken_def)
qed

theorem bearer_empty_remainder_witness:
  "test_jwt_verify [] = Inl (Error ''jwt malformed'')
   \<and> extractTokenFromHeader (Some (js ''Bearer '')) = Inr []
   \<and> authenticateToken test_jwt_verify empty_db (Some (js ''Bearer ''))
     = Responded (failure 401 ''Invalid or expired token'')"
proof -
  have h: "test_jwt_verify [] = Inl (Error ''jwt malformed'')"
    by (simp add: test_jwt_verify_def js_def)
  show ?thesis
    using h bearer_empty_remainder [of test_jwt_verify _ empty_db, OF h] by simp
qed

text \<open>The specification's sentence fails at this header: the extraction returns a
  token, and the response is not \<open>Access token required\<close>.\<close>

theorem bearer_empty_remainder_counterexample:
  "extractTokenFromHeader (Some (js ''Bearer '')) = Inr []
   \<and> authenticateToken test_jwt_verify empty_db (Some (js ''Bearer ''))
     \<noteq> Responded (failure 401 ''Access token required'')"
  by (simp add: authenticateToken_def extractTokenFromHeader_def startsWith_def
      substring_def js_def verifyToken_def test_jwt_verify_def failure_def)

section \<open>Verification: the cipher\<close>

subsection \<open>The block cipher is inverted by its inverse\<close>

lemma xtime_xor: "xtime (a XOR b) = xtime a XOR xtime b"
  by (simp add: xtime_def bit_xor_iff xor.assoc xor.commute xor.left_commute)

lemma xor_cancel_left: "(a :: byte) XOR (a XOR b) = b"
  by (simp add: xor.assoc [symmetric])

lemma inv_mix_column_mix_column: "inv_mix_column (mix_column c) = c"
proof -
  obtain a0 a1 a2 a3 where c: "c = (a0, a1, a2, a3)" by (cases c) auto
  show ?thesis
    unfolding c
    by (simp add: mul2_def mul3_def mul9_def mul11_def mul13_def mul14_def xtime_xor
        xor_cancel_left xor.assoc xor.commute xor.left_commute)
qed

lemma inv_shift_rows_shift_rows: "inv_shift_rows (shift_rows s) = s"
proof -
  obtain c0 c1 c2 c3 where "s = (c0, c1, c2, c3)" by (cases s) auto
  moreover obtain s00 s10 s20 s30 where "c0 = (s00, s10, s20, s30)" by (cases c0) auto
  moreover obtain s01 s11 s21 s31 where "c1 = (s01, s11, s21, s31)" by (cases c1) auto
  moreover obtain s02 s12 s22 s32 where "c2 = (s02, s12, s22, s32)" by (cases c2) auto
  moreover obtain s03 s13 s23 s33 where "c3 = (s03, s13, s23, s33)" by (cases c3) auto
  ultimately show ?thesis by simp
qed

lemma xor_col_cancel: "xor_col (xor_col c k) k = c"
  by (cases c; cases k) (simp add: xor.assoc)

lemma add_round_key_cancel: "add_round_key k (add_round_key k s) = s"
proof -
  obtain c0 c1 c2 c3 where "s = (c0, c1, c2, c3)" by (cases s) auto
  moreover obtain k0 k1 k2 k3 where "k = (k0, k1, k2, k3)" by (cases k) auto
  ultimately show ?thesis by (simp add: xor_col_cancel)
qed

lemma inv_mix_columns_mix_columns: "inv_mix_columns (mix_columns s) = s"
proof -
  obtain c0 c1 c2 c3 where "s = (c0, c1, c2, c3)" by (cases s) auto
  then show ?thesis by (simp add: inv_mix_column_mix_column)
qed

lemma sbox_table_inverse:
  "list_all (\<lambda>n. inv_sbox_table ! unat (sbox_table ! n) = of_nat n) [0..<256]"
  by code_simp

lemma inv_sbox_sbox: "inv_sbox (sbox b) = b"
proof -
  have "unat b < 256"
    using unsigned_less [of b, where ?'a = nat] by simp
  then have "inv_sbox_table ! unat (sbox_table ! unat b) = of_nat (unat b)"
    using sbox_table_inverse by (simp add: list_all_iff)
  then show ?thesis by (simp add: inv_sbox_def sbox_def)
qed

lemma inv_sub_bytes_sub_bytes: "inv_sub_bytes (sub_bytes s) = s"
proof -
  have col: "map_col inv_sbox (map_col sbox c) = c" for c
    by (cases c) (simp add: inv_sbox_sbox)
  obtain c0 c1 c2 c3 where "s = (c0, c1, c2, c3)" by (cases s) auto
  then show ?thesis by (simp add: col)
qed

lemma inv_cipher_rounds_append:
  "inv_cipher_rounds (ks @ [k]) s =
   inv_mix_columns (add_round_key k (inv_sub_bytes (inv_shift_rows (inv_cipher_rounds ks s))))"
  by (induction ks arbitrary: s) simp_all

lemma inv_cipher_rounds_cipher_rounds:
  "inv_cipher_rounds (rev ks) (shift_rows (sub_bytes (cipher_rounds ks s)))
   = shift_rows (sub_bytes s)"
proof (induction ks arbitrary: s)
  case Nil
  then show ?case by simp
next
  case (Cons k ks)
  show ?case
    by (simp add: inv_cipher_rounds_append Cons.IH inv_shift_rows_shift_rows
        inv_sub_bytes_sub_bytes add_round_key_cancel inv_mix_columns_mix_columns)
qed

lemma inv_cipher_cipher: "inv_cipher w (cipher w s) = s"
  by (simp add: inv_cipher_def cipher_def Let_def add_round_key_cancel rev_map [symmetric]
      inv_cipher_rounds_cipher_rounds inv_shift_rows_shift_rows inv_sub_bytes_sub_bytes
      del: upt_rec_numeral)

lemma length_block_of_state: "length (block_of_state s) = 16"
proof -
  obtain c0 c1 c2 c3 where "s = (c0, c1, c2, c3)" by (cases s) auto
  moreover obtain s00 s10 s20 s30 where "c0 = (s00, s10, s20, s30)" by (cases c0) auto
  moreover obtain s01 s11 s21 s31 where "c1 = (s01, s11, s21, s31)" by (cases c1) auto
  moreover obtain s02 s12 s22 s32 where "c2 = (s02, s12, s22, s32)" by (cases c2) auto
  moreover obtain s03 s13 s23 s33 where "c3 = (s03, s13, s23, s33)" by (cases c3) auto
  ultimately show ?thesis by simp
qed

lemma state_of_block_of_state: "state_of_block (block_of_state s) = s"
proof -
  obtain c0 c1 c2 c3 where "s = (c0, c1, c2, c3)" by (cases s) auto
  moreover obtain s00 s10 s20 s30 where "c0 = (s00, s10, s20, s30)" by (cases c0) auto
  moreover obtain s01 s11 s21 s31 where "c1 = (s01, s11, s21, s31)" by (cases c1) auto
  moreover obtain s02 s12 s22 s32 where "c2 = (s02, s12, s22, s32)" by (cases c2) auto
  moreover obtain s03 s13 s23 s33 where "c3 = (s03, s13, s23, s33)" by (cases c3) auto
  ultimately show ?thesis by (simp add: state_of_block_def)
qed

lemma block_of_state_of_block:
  assumes "length b = 16"
  shows "block_of_state (state_of_block b) = b"
proof (rule nth_equalityI)
  show "length (block_of_state (state_of_block b)) = length b"
    using assms by (simp add: length_block_of_state)
next
  fix i
  assume "i < length (block_of_state (state_of_block b))"
  then have "i < 16" by (simp add: length_block_of_state)
  then have "i \<in> {0, 1, 2, 3, 4, 5, 6, 7, 8, 9, 10, 11, 12, 13, 14, 15}"
    by simp arith
  then show "block_of_state (state_of_block b) ! i = b ! i"
    by (auto simp: state_of_block_def)
qed

lemma length_encrypt_block: "length (encrypt_block w b) = 16"
  by (simp add: encrypt_block_def length_block_of_state)

lemma decrypt_block_encrypt_block:
  "length b = 16 \<Longrightarrow> decrypt_block w (encrypt_block w b) = b"
  by (simp add: decrypt_block_def encrypt_block_def state_of_block_of_state
      inv_cipher_cipher block_of_state_of_block)

subsection \<open>CBC, padding and hex\<close>


lemma length_xor_block: "length (xor_block a b) = min (length a) (length b)"
  by (simp add: xor_block_def)

lemma xor_block_cancel: "length a = length b \<Longrightarrow> xor_block (xor_block a b) b = a"
proof (induction a b rule: list_induct2)
  case Nil
  then show ?case by (simp add: xor_block_def)
next
  case (Cons x xs y ys)
  then show ?case by (simp add: xor_block_def xor.assoc)
qed

lemma length_cbc_encrypt:
  "length bs mod 16 = 0 \<Longrightarrow> length (cbc_encrypt w prev bs) = length bs"
proof (induction w prev bs rule: cbc_encrypt.induct)
  case (1 w prev bs)
  show ?case
  proof (cases "length bs < 16")
    case True
    then have "bs = []" using "1.prems" by auto
    then show ?thesis by (simp add: cbc_encrypt.simps)
  next
    case False
    have "length (drop 16 bs) mod 16 = 0"
      using "1.prems" False by (simp add: mod_diff_eq [symmetric] le_mod_geq)
    then have "length (cbc_encrypt w (encrypt_block w (xor_block (take 16 bs) prev)) (drop 16 bs))
               = length bs - 16"
      using "1.IH" [OF False refl] by simp
    then show ?thesis
      using False by (subst cbc_encrypt.simps) (simp add: Let_def length_encrypt_block)
  qed
qed

lemma cbc_decrypt_cbc_encrypt:
  "length prev = 16 \<Longrightarrow> length bs mod 16 = 0 \<Longrightarrow>
   cbc_decrypt w prev (cbc_encrypt w prev bs) = bs"
proof (induction w prev bs rule: cbc_encrypt.induct)
  case (1 w prev bs)
  show ?case
  proof (cases "length bs < 16")
    case True
    then have "bs = []" using "1.prems" by auto
    then show ?thesis by (simp add: cbc_encrypt.simps cbc_decrypt.simps)
  next
    case False
    define x where "x = xor_block (take 16 bs) prev"
    define c where "c = encrypt_block w x"
    define rest where "rest = cbc_encrypt w c (drop 16 bs)"
    have lx: "length x = 16"
      using False "1.prems" by (simp add: x_def length_xor_block)
    have lc: "length c = 16"
      by (simp add: c_def length_encrypt_block)
    have enc: "cbc_encrypt w prev bs = c @ rest"
      using False by (subst cbc_encrypt.simps) (simp add: Let_def x_def c_def rest_def)
    have "length (drop 16 bs) mod 16 = 0"
      using "1.prems" False by (simp add: mod_diff_eq [symmetric] le_mod_geq)
    then have ih: "cbc_decrypt w c rest = drop 16 bs"
      using "1.IH" [OF False refl] lc by (simp add: rest_def c_def x_def)
    have "cbc_decrypt w prev (c @ rest) = xor_block (decrypt_block w c) prev @ cbc_decrypt w c rest"
      using lc by (subst cbc_decrypt.simps) (simp add: Let_def)
    also have "decrypt_block w c = x"
      using lx by (simp add: c_def decrypt_block_encrypt_block)
    also have "xor_block x prev = take 16 bs"
      using False "1.prems" by (simp add: x_def xor_block_cancel)
    finally show ?thesis
      using enc ih by simp
  qed
qed

lemma pkcs7_pad_length: "length (pkcs7_pad bs) mod 16 = 0"
proof -
  have "(length bs + (16 - length bs mod 16)) mod 16 = 0"
    by presburger
  then show ?thesis by (simp add: pkcs7_pad_def Let_def)
qed

lemma pkcs7_pad_nonempty: "pkcs7_pad bs \<noteq> []"
  by (simp add: pkcs7_pad_def Let_def)

lemma pkcs7_unpad_pad: "pkcs7_unpad (pkcs7_pad bs) = Some bs"
proof -
  define n where "n = 16 - length bs mod 16"
  have n: "0 < n" "n \<le> 16"
    by (simp_all add: n_def)
  then obtain m where m: "n = Suc m" by (cases n) auto
  have un: "unat (of_nat n :: byte) = n"
    using n by (simp add: unat_of_nat)
  have p: "pkcs7_pad bs = bs @ replicate n (of_nat n)"
    by (simp add: pkcs7_pad_def n_def Let_def)
  have l: "last (bs @ replicate n (of_nat n :: byte)) = of_nat n"
    unfolding m by simp
  show ?thesis
    unfolding p pkcs7_unpad_def Let_def l un
    using n by simp
qed

lemma unat_hex_digit:
  assumes "n < 16"
  shows "unat (hex_digit n) = (if n < 10 then 0x30 + n else 0x61 + (n - 10))"
proof -
  have "unat (of_nat (0x30 + n) :: jschar) = 0x30 + n"
    using assms by (subst unat_of_nat) simp
  moreover have "unat (of_nat (0x61 + (n - 10)) :: jschar) = 0x61 + (n - 10)"
    using assms by (subst unat_of_nat) simp
  ultimately show ?thesis
    by (cases "n < 10") (simp_all only: hex_digit_def if_True if_False)
qed

lemma hex_value_hex_digit: "n < 16 \<Longrightarrow> hex_value (hex_digit n) = Some n"
  by (simp add: hex_value_def Let_def unat_hex_digit)

lemma hex_decode_hex_encode: "hex_decode (hex_encode bs) = bs"
proof (induction bs)
  case Nil
  then show ?case by (simp add: hex_encode_def)
next
  case (Cons b bs)
  have "of_nat (16 * (unat b div 16) + unat b mod 16) = b"
    by simp
  moreover have "unat b div 16 < 16"
    using unsigned_less [of b, where ?'a = nat] by simp
  ultimately show ?case
    using Cons by (simp add: hex_encode_def hex_value_hex_digit)
qed

subsection \<open>UTF-8\<close>

lemma split64: "\<exists>q lo. (cp::nat) = q * 64 + lo \<and> lo < 64 \<and> cp div 64 = q \<and> cp mod 64 = lo"
  by (rule exI [of _ "cp div 64"], rule exI [of _ "cp mod 64"]) simp

lemma div4096: "(cp::nat) div 4096 = cp div 64 div 64"
  using div_mult2_eq [of cp 64 64] by simp

lemma div262144: "(cp::nat) div 262144 = cp div 64 div 64 div 64"
  using div_mult2_eq [of cp 4096 64] by (simp add: div4096)

lemma utf8_two:
  assumes "0x80 \<le> cp" "cp < 0x800"
  shows "utf8_decode_code_points (utf8_encode_code_point cp @ rest)
         = cp # utf8_decode_code_points rest"
proof -
  obtain hi lo where d: "cp = hi * 64 + lo" "lo < 64" "cp div 64 = hi" "cp mod 64 = lo"
    using split64 [of cp] by blast
  have b: "2 \<le> hi" "hi < 32"
    using assms d(1,2) by linarith+
  have enc: "utf8_encode_code_point cp = [0xC0 + hi, 0x80 + lo]"
    using assms d(3,4) by (simp add: utf8_encode_code_point_def)
  show ?thesis
    unfolding enc using b d(2) by (simp add: is_continuation_def d(1))
qed

lemma utf8_three:
  assumes "0x800 \<le> cp" "cp < 0x10000" "\<not> (0xD800 \<le> cp \<and> cp \<le> 0xDFFF)"
  shows "utf8_decode_code_points (utf8_encode_code_point cp @ rest)
         = cp # utf8_decode_code_points rest"
proof -
  obtain q lo where d: "cp = q * 64 + lo" "lo < 64" "cp div 64 = q" "cp mod 64 = lo"
    using split64 [of cp] by blast
  obtain hi mid where e: "q = hi * 64 + mid" "mid < 64" "q div 64 = hi" "q mod 64 = mid"
    using split64 [of q] by blast
  have cp: "cp = hi * 4096 + mid * 64 + lo"
    using d(1) e(1) by simp
  have b: "hi < 16" "hi = 0 \<longrightarrow> 32 \<le> mid" "hi = 13 \<longrightarrow> mid < 32"
    using assms cp d(2) e(2) by linarith+
  have enc: "utf8_encode_code_point cp = [0xE0 + hi, 0x80 + mid, 0x80 + lo]"
    using assms d(3,4) e(3,4) by (simp add: utf8_encode_code_point_def div4096)
  show ?thesis
    unfolding enc using b d(2) e(2)
    by (auto simp add: is_continuation_def second_byte_ok_def cp)
qed

lemma utf8_four:
  assumes "0x10000 \<le> cp" "cp < 0x110000"
  shows "utf8_decode_code_points (utf8_encode_code_point cp @ rest)
         = cp # utf8_decode_code_points rest"
proof -
  obtain q lo where d: "cp = q * 64 + lo" "lo < 64" "cp div 64 = q" "cp mod 64 = lo"
    using split64 [of cp] by blast
  obtain r m2 where e: "q = r * 64 + m2" "m2 < 64" "q div 64 = r" "q mod 64 = m2"
    using split64 [of q] by blast
  obtain hi m1 where f: "r = hi * 64 + m1" "m1 < 64" "r div 64 = hi" "r mod 64 = m1"
    using split64 [of r] by blast
  have cp: "cp = hi * 262144 + m1 * 4096 + m2 * 64 + lo"
    using d(1) e(1) f(1) by simp
  have b: "hi < 5" "hi = 0 \<longrightarrow> 16 \<le> m1" "hi = 4 \<longrightarrow> m1 < 16"
    using assms cp d(2) e(2) f(2) by linarith+
  have enc: "utf8_encode_code_point cp = [0xF0 + hi, 0x80 + m1, 0x80 + m2, 0x80 + lo]"
    using assms d(3,4) e(3,4) f(3,4)
    by (simp add: utf8_encode_code_point_def div4096 div262144)
  show ?thesis
    unfolding enc using b d(2) e(2) f(2)
    by (auto simp add: is_continuation_def second_byte_ok_def cp)
qed

lemma utf8_decode_encode_code_point:
  assumes "scalar_value cp"
  shows "utf8_decode_code_points (utf8_encode_code_point cp @ rest)
         = cp # utf8_decode_code_points rest"
proof -
  consider (one) "cp < 0x80" | (two) "0x80 \<le> cp" "cp < 0x800"
    | (three) "0x800 \<le> cp" "cp < 0x10000" | (four) "0x10000 \<le> cp" "cp < 0x110000"
    using assms unfolding scalar_value_def by linarith
  then show ?thesis
  proof cases
    case one
    then show ?thesis by (simp add: utf8_encode_code_point_def)
  next
    case two
    then show ?thesis by (rule utf8_two)
  next
    case three
    then show ?thesis using assms utf8_three by (simp add: scalar_value_def)
  next
    case four
    then show ?thesis by (rule utf8_four)
  qed
qed

lemma utf8_decode_encode_code_points:
  "list_all scalar_value cps \<Longrightarrow>
   utf8_decode_code_points (concat (map utf8_encode_code_point cps)) = cps"
proof (induction cps)
  case Nil
  then show ?case by simp
next
  case (Cons cp cps)
  then show ?case
    using utf8_decode_encode_code_point [of cp "concat (map utf8_encode_code_point cps)"]
    by simp
qed

lemma utf8_encode_code_point_bytes:
  assumes "cp < 0x110000"
  shows "list_all (\<lambda>b. b < 256) (utf8_encode_code_point cp)"
proof -
  have m: "0x80 + x mod 0x40 < (256::nat)" for x :: nat
    using mod_less_divisor [of "0x40" x] by linarith
  have "cp < 0x800 \<longrightarrow> 0xC0 + cp div 0x40 < 256"
    by linarith
  moreover have "cp < 0x10000 \<longrightarrow> 0xE0 + cp div 0x1000 < 256"
    by linarith
  moreover have "0xF0 + cp div 0x40000 < 256"
    using assms by linarith
  ultimately show ?thesis
    using m by (simp add: utf8_encode_code_point_def)
qed

lemma unat_of_nat_bytes:
  "list_all (\<lambda>b. b < 256) bs \<Longrightarrow> map unat (map of_nat bs :: byte list) = bs"
  by (induction bs) (simp_all add: unat_of_nat)

lemma scalar_value_bound: "scalar_value cp \<Longrightarrow> cp < 0x110000"
  by (simp add: scalar_value_def)

lemma utf8_bytes_of_code_points:
  "list_all scalar_value cps \<Longrightarrow>
   list_all (\<lambda>b. b < 256) (concat (map utf8_encode_code_point cps))"
  by (induction cps) (simp_all add: utf8_encode_code_point_bytes scalar_value_bound)

lemma unit_code_point_plain:
  assumes "\<not> is_high_surrogate c" "\<not> is_low_surrogate c"
  shows "scalar_value (unit_code_point c)" "utf16_encode_code_point (unit_code_point c) = [c]"
proof -
  have lt: "unat c < 0x10000"
    using unsigned_less [of c, where ?'a = nat] by simp
  have ns: "\<not> (0xD800 \<le> unat c \<and> unat c \<le> 0xDFFF)"
    using assms unfolding is_high_surrogate_def is_low_surrogate_def by linarith
  have u: "unit_code_point c = unat c"
    using assms by (simp add: unit_code_point_def)
  show "scalar_value (unit_code_point c)"
    unfolding u scalar_value_def using lt ns by linarith
  show "utf16_encode_code_point (unit_code_point c) = [c]"
    unfolding u utf16_encode_code_point_def using lt by simp
qed

lemma surrogate_pair:
  assumes "is_high_surrogate c" "is_low_surrogate d"
  shows "scalar_value (0x10000 + (unat c - 0xD800) * 0x400 + (unat d - 0xDC00))"
    and "utf16_encode_code_point (0x10000 + (unat c - 0xD800) * 0x400 + (unat d - 0xDC00))
         = [c, d]"
proof -
  define x where "x = unat c - 0xD800"
  define y where "y = unat d - 0xDC00"
  have x: "unat c = 0xD800 + x" "x < 0x400"
    using assms(1) unfolding is_high_surrogate_def x_def by linarith+
  have y: "unat d = 0xDC00 + y" "y < 0x400"
    using assms(2) unfolding is_low_surrogate_def y_def by linarith+
  have c: "of_nat (0xD800 + x) = c" "of_nat (0xDC00 + y) = d"
    using x(1) y(1) by (metis of_nat_unat ucast_id)+
  have dm: "(x * 0x400 + y) div 0x400 = x" "(x * 0x400 + y) mod 0x400 = y"
    using y(2) by simp_all
  show "scalar_value (0x10000 + (unat c - 0xD800) * 0x400 + (unat d - 0xDC00))"
    unfolding x_def [symmetric] y_def [symmetric] scalar_value_def
    using x(2) y(2) by linarith
  have "utf16_encode_code_point (0x10000 + x * 0x400 + y) = [c, d]"
    unfolding utf16_encode_code_point_def using dm c by (simp add: add.assoc)
  then show "utf16_encode_code_point (0x10000 + (unat c - 0xD800) * 0x400 + (unat d - 0xDC00))
         = [c, d]"
    by (simp only: x_def y_def)
qed


lemma code_points_well_formed:
  "well_formed s \<Longrightarrow>
   list_all scalar_value (code_points s)
   \<and> concat (map utf16_encode_code_point (code_points s)) = s"
proof (induction s rule: well_formed.induct)
  case 1
  then show ?case by simp
next
  case (2 c)
  then show ?case by (simp add: unit_code_point_plain)
next
  case (3 c d cs)
  show ?case
  proof (cases "is_high_surrogate c")
    case True
    then have d: "is_low_surrogate d" and cs: "well_formed cs"
      using "3.prems" by simp_all
    show ?thesis
      using True d "3.IH"(1) [OF True cs] by (simp add: surrogate_pair)
  next
    case False
    then have c: "\<not> is_low_surrogate c" and dcs: "well_formed (d # cs)"
      using "3.prems" by simp_all
    show ?thesis
      using False c "3.IH"(2) [OF False dcs] by (simp add: unit_code_point_plain)
  qed
qed

lemma utf8_decode_utf8_encode:
  assumes "well_formed s"
  shows "utf8_decode (utf8_encode s) = s"
proof -
  have sc: "list_all scalar_value (code_points s)"
    and u16: "concat (map utf16_encode_code_point (code_points s)) = s"
    using code_points_well_formed [OF assms] by simp_all
  have "map unat (utf8_encode s) = concat (map utf8_encode_code_point (code_points s))"
    unfolding utf8_encode_def
    by (rule unat_of_nat_bytes) (rule utf8_bytes_of_code_points [OF sc])
  then have "utf8_decode_code_points (map unat (utf8_encode s)) = code_points s"
    using utf8_decode_encode_code_points [OF sc] by simp
  then show ?thesis
    unfolding utf8_decode_def using u16 by simp
qed

subsection \<open>The model against known answers\<close>

text \<open>The key schedule has the 60 words the rounds read.\<close>

lemma length_expand_from: "length (expand_from n w) = length w + n"
  by (induction n arbitrary: w) (simp_all add: Let_def)

lemma length_key_expansion: "length (key_expansion k) = 60"
  by (simp add: key_expansion_def length_expand_from key_words_def)

text \<open>The example vector of FIPS 197, Appendix C.3.\<close>

lemma fips197_example:
  "encrypt_block
     (key_expansion
        [0x00, 0x01, 0x02, 0x03, 0x04, 0x05, 0x06, 0x07,
         0x08, 0x09, 0x0A, 0x0B, 0x0C, 0x0D, 0x0E, 0x0F,
         0x10, 0x11, 0x12, 0x13, 0x14, 0x15, 0x16, 0x17,
         0x18, 0x19, 0x1A, 0x1B, 0x1C, 0x1D, 0x1E, 0x1F])
     [0x00, 0x11, 0x22, 0x33, 0x44, 0x55, 0x66, 0x77,
      0x88, 0x99, 0xAA, 0xBB, 0xCC, 0xDD, 0xEE, 0xFF]
   = [0x8E, 0xA2, 0xB7, 0xCA, 0x51, 0x67, 0x45, 0xBF,
      0xEA, 0xFC, 0x49, 0x90, 0x4B, 0x49, 0x60, 0x89]"
  by code_simp

text \<open>
  Two ciphertexts as OpenSSL's \<open>aes-256-cbc\<close> gives them for the key
  \<open>12345678901234567890123456789012\<close> and the [0x31, 0x32, 0x33, 0x34, 0x35, 0x36, 0x37, 0x38,
      0x39, 0x30, 0x31, 0x32, 0x33, 0x34, 0x35, 0x36] \<open>1234567890123456\<close>: of the empty
  string (one block of padding) and of a plaintext of three blocks.
\<close>

lemma test_key_bytes:
  "utf8_encode (js ''12345678901234567890123456789012'') = [0x31, 0x32, 0x33, 0x34, 0x35, 0x36, 0x37, 0x38,
      0x39, 0x30, 0x31, 0x32, 0x33, 0x34, 0x35, 0x36,
      0x37, 0x38, 0x39, 0x30, 0x31, 0x32, 0x33, 0x34,
      0x35, 0x36, 0x37, 0x38, 0x39, 0x30, 0x31, 0x32]"
  "utf8_encode (js ''1234567890123456'') = [0x31, 0x32, 0x33, 0x34, 0x35, 0x36, 0x37, 0x38,
      0x39, 0x30, 0x31, 0x32, 0x33, 0x34, 0x35, 0x36]"
  by (simp_all add: js_def utf8_encode_def unit_code_point_def is_high_surrogate_def
      is_low_surrogate_def utf8_encode_code_point_def)

lemma cbc_empty_plaintext:
  "cbc_encrypt (key_expansion [0x31, 0x32, 0x33, 0x34, 0x35, 0x36, 0x37, 0x38,
      0x39, 0x30, 0x31, 0x32, 0x33, 0x34, 0x35, 0x36,
      0x37, 0x38, 0x39, 0x30, 0x31, 0x32, 0x33, 0x34,
      0x35, 0x36, 0x37, 0x38, 0x39, 0x30, 0x31, 0x32]) [0x31, 0x32, 0x33, 0x34, 0x35, 0x36, 0x37, 0x38,
      0x39, 0x30, 0x31, 0x32, 0x33, 0x34, 0x35, 0x36]
     (pkcs7_pad [])
   = [0xB5, 0x52, 0x2C, 0xD5, 0x3F, 0x3D, 0x5A, 0x72,
      0x8C, 0x5C, 0x53, 0x14, 0x74, 0xEF, 0xC1, 0x50]"
  by code_simp

lemma encrypt_empty_string:
  "encrypt test_service (js '''') = Inr (js ''b5522cd53f3d5a728c5c531474efc150'')"
proof -
  have "utf8_encode (js '''') = []"
    by (simp add: js_def utf8_encode_def)
  moreover have "hex_encode [0xB5, 0x52, 0x2C, 0xD5, 0x3F, 0x3D, 0x5A, 0x72,
      0x8C, 0x5C, 0x53, 0x14, 0x74, 0xEF, 0xC1, 0x50] = js ''b5522cd53f3d5a728c5c531474efc150''"
    by (simp add: hex_encode_def hex_digit_def js_def)
  ultimately show ?thesis
    by (simp add: encrypt_def create_cipher_def test_service_def test_key_bytes
        cbc_empty_plaintext)
qed

lemma fox_bytes:
  "utf8_encode (js ''Once upon a time there was a fox.'') = [0x4F, 0x6E, 0x63, 0x65, 0x20, 0x75, 0x70, 0x6F,
      0x6E, 0x20, 0x61, 0x20, 0x74, 0x69, 0x6D, 0x65,
      0x20, 0x74, 0x68, 0x65, 0x72, 0x65, 0x20, 0x77,
      0x61, 0x73, 0x20, 0x61, 0x20, 0x66, 0x6F, 0x78,
      0x2E]"
  by (simp add: js_def utf8_encode_def unit_code_point_def is_high_surrogate_def
      is_low_surrogate_def utf8_encode_code_point_def)

lemma cbc_fox:
  "cbc_encrypt (key_expansion [0x31, 0x32, 0x33, 0x34, 0x35, 0x36, 0x37, 0x38,
      0x39, 0x30, 0x31, 0x32, 0x33, 0x34, 0x35, 0x36,
      0x37, 0x38, 0x39, 0x30, 0x31, 0x32, 0x33, 0x34,
      0x35, 0x36, 0x37, 0x38, 0x39, 0x30, 0x31, 0x32]) [0x31, 0x32, 0x33, 0x34, 0x35, 0x36, 0x37, 0x38,
      0x39, 0x30, 0x31, 0x32, 0x33, 0x34, 0x35, 0x36]
     (pkcs7_pad [0x4F, 0x6E, 0x63, 0x65, 0x20, 0x75, 0x70, 0x6F,
      0x6E, 0x20, 0x61, 0x20, 0x74, 0x69, 0x6D, 0x65,
      0x20, 0x74, 0x68, 0x65, 0x72, 0x65, 0x20, 0x77,
      0x61, 0x73, 0x20, 0x61, 0x20, 0x66, 0x6F, 0x78,
      0x2E])
   = [0xD9, 0xDB, 0xE4, 0x15, 0x53, 0xF4, 0x12, 0x43,
      0x2F, 0x4B, 0x91, 0x65, 0x32, 0x6A, 0xE2, 0x37,
      0x78, 0xB9, 0xFB, 0xC2, 0xFF, 0x23, 0xCC, 0x55,
      0xD3, 0xB5, 0xFD, 0x37, 0xDC, 0x06, 0xD2, 0x87,
      0xCC, 0x0E, 0xC4, 0xBB, 0x90, 0x52, 0xF2, 0x04,
      0x06, 0x3E, 0x54, 0xE5, 0xE5, 0x21, 0x57, 0xB0]"
  by code_simp

lemma encrypt_fox:
  "encrypt test_service (js ''Once upon a time there was a fox.'')
   = Inr (js ''d9dbe41553f412432f4b9165326ae23778b9fbc2ff23cc55''
          @ js ''d3b5fd37dc06d287cc0ec4bb9052f204063e54e5e52157b0'')"
proof -
  have "hex_encode [0xD9, 0xDB, 0xE4, 0x15, 0x53, 0xF4, 0x12, 0x43,
      0x2F, 0x4B, 0x91, 0x65, 0x32, 0x6A, 0xE2, 0x37,
      0x78, 0xB9, 0xFB, 0xC2, 0xFF, 0x23, 0xCC, 0x55,
      0xD3, 0xB5, 0xFD, 0x37, 0xDC, 0x06, 0xD2, 0x87,
      0xCC, 0x0E, 0xC4, 0xBB, 0x90, 0x52, 0xF2, 0x04,
      0x06, 0x3E, 0x54, 0xE5, 0xE5, 0x21, 0x57, 0xB0]
        = js ''d9dbe41553f412432f4b9165326ae23778b9fbc2ff23cc55''
          @ js ''d3b5fd37dc06d287cc0ec4bb9052f204063e54e5e52157b0''"
    by (simp add: hex_encode_def hex_digit_def js_def)
  then show ?thesis
    by (simp add: encrypt_def create_cipher_def test_service_def test_key_bytes fox_bytes
        cbc_fox)
qed

subsection \<open>The service\<close>

lemma create_cipher_ok:
  assumes "length (utf8_encode (secretKey svc)) = 32" "length (utf8_encode (iv svc)) = 16"
  shows "create_cipher svc = Inr (key_expansion (utf8_encode (secretKey svc)), utf8_encode (iv svc))"
  using assms by (simp add: create_cipher_def Let_def)

lemma length_hex_encode: "length (hex_encode bs) = 2 * length bs"
  by (induction bs) (simp_all add: hex_encode_def)

lemma decrypt_encrypt:
  assumes "length (utf8_encode (secretKey svc)) = 32" "length (utf8_encode (iv svc)) = 16"
    and "well_formed s"
  shows "\<exists>c. encrypt svc s = Inr c \<and> decrypt svc c = Inr s"
proof -
  define w where "w = key_expansion (utf8_encode (secretKey svc))"
  define v where "v = utf8_encode (iv svc)"
  define p where "p = pkcs7_pad (utf8_encode s)"
  define c where "c = cbc_encrypt w v p"
  have cc: "create_cipher svc = Inr (w, v)"
    using create_cipher_ok [OF assms(1,2)] by (simp add: w_def v_def)
  have enc: "encrypt svc s = Inr (hex_encode c)"
    by (simp add: encrypt_def cc c_def p_def)
  have lp: "length p mod 16 = 0" and pn: "p \<noteq> []"
    by (simp_all add: p_def pkcs7_pad_length pkcs7_pad_nonempty)
  have lc: "length c = length p"
    using lp by (simp add: c_def length_cbc_encrypt)
  have cn: "c \<noteq> []" "length c mod 16 = 0"
    using lc lp pn by auto
  have dc: "cbc_decrypt w v c = p"
    using lp assms(2) by (simp add: c_def v_def cbc_decrypt_cbc_encrypt)
  have "decrypt svc (hex_encode c) = Inr s"
    using cn assms(3)
    by (simp add: decrypt_def cc length_hex_encode hex_decode_hex_encode Let_def dc p_def
        pkcs7_unpad_pad utf8_decode_utf8_encode)
  with enc show ?thesis by blast
qed

text \<open>
  C1. With a service whose key is 32 bytes and whose IV is 16 bytes, encrypting any
  well-formed string, the empty string included, succeeds, and decrypting the result
  returns the string.
\<close>

theorem encrypt_decrypt_round_trip:
  assumes "new_EncryptionService env_key env_iv = Inr svc"
    and "length (utf8_encode (secretKey svc)) = 32"
    and "length (utf8_encode (iv svc)) = 16"
    and "well_formed s"
  shows "\<exists>c. encrypt svc s = Inr c \<and> decrypt svc c = Inr s"
  using assms(2-4) by (rule decrypt_encrypt)

lemma ascii_key_bytes:
  "length (utf8_encode (js ''12345678901234567890123456789012'')) = 32"
  "length (utf8_encode (js ''1234567890123456'')) = 16"
  by (simp_all add: js_def utf8_encode_def unit_code_point_def is_high_surrogate_def
        is_low_surrogate_def utf8_encode_code_point_def)

theorem encrypt_decrypt_round_trip_witness:
  "new_EncryptionService (Some (js ''12345678901234567890123456789012''))
      (Some (js ''1234567890123456'')) = Inr test_service
   \<and> length (utf8_encode (secretKey test_service)) = 32
   \<and> length (utf8_encode (iv test_service)) = 16
   \<and> well_formed (js ''Unicode text: '' @ [0xF1, 0xE1, 0x20AC, 0xD83D, 0xDE00])
   \<and> (\<exists>c. encrypt test_service (js ''Unicode text: '' @ [0xF1, 0xE1, 0x20AC, 0xD83D, 0xDE00]) = Inr c
          \<and> decrypt test_service c = Inr (js ''Unicode text: '' @ [0xF1, 0xE1, 0x20AC, 0xD83D, 0xDE00]))
   \<and> well_formed (js '''')
   \<and> (\<exists>c. encrypt test_service (js '''') = Inr c \<and> decrypt test_service c = Inr (js ''''))"
proof -
  have a: "new_EncryptionService (Some (js ''12345678901234567890123456789012''))
      (Some (js ''1234567890123456'')) = Inr test_service"
    by (simp add: new_EncryptionService_def test_service_def js_def)
  have b: "length (utf8_encode (secretKey test_service)) = 32"
    by (simp add: test_service_def ascii_key_bytes)
  have c: "length (utf8_encode (iv test_service)) = 16"
    by (simp add: test_service_def ascii_key_bytes)
  have d: "well_formed (js ''Unicode text: '' @ [0xF1, 0xE1, 0x20AC, 0xD83D, 0xDE00])"
    by (simp add: js_def is_high_surrogate_def is_low_surrogate_def)
  have e: "well_formed (js '''')"
    by (simp add: js_def)
  show ?thesis
    using a b c d e encrypt_decrypt_round_trip [OF a b c d]
      encrypt_decrypt_round_trip [OF a b c e]
    by blast
qed

text \<open>
  C10, as the code has it. The constructor counts characters (UTF-16 code units), not
  bytes: it fails exactly when the key is absent or not 32 characters long, or the IV is
  absent or not 16 characters long, and with a 32-character key and a 16-character IV it
  succeeds.
\<close>

theorem constructor_validation:
  "new_EncryptionService None env_iv
     = Inl (Error ''AES_SECRET_KEY must be exactly 32 characters long'')
   \<and> new_EncryptionService (Some k) None
     = Inl (Error (if length k = 32 then ''AES_IV must be exactly 16 characters long''
                   else ''AES_SECRET_KEY must be exactly 32 characters long''))
   \<and> new_EncryptionService (Some k) (Some v)
     = (if length k = 32 \<and> length v = 16 then Inr \<lparr>secretKey = k, iv = v\<rparr>
        else Inl (Error (if length k = 32 then ''AES_IV must be exactly 16 characters long''
                         else ''AES_SECRET_KEY must be exactly 32 characters long'')))"
  by (auto simp add: new_EncryptionService_def)

text \<open>
  A key of 32 characters whose last character is \<open>U+00E9\<close> has 33 bytes in UTF-8: it is
  not a 32-byte key, the constructor accepts it, and the cipher then rejects it.
\<close>

theorem constructor_validation_counterexample:
  "new_EncryptionService (Some (js ''1234567890123456789012345678901'' @ [0xE9]))
      (Some (js ''1234567890123456''))
     = Inr \<lparr>secretKey = js ''1234567890123456789012345678901'' @ [0xE9],
            iv = js ''1234567890123456''\<rparr>
   \<and> length (utf8_encode (js ''1234567890123456789012345678901'' @ [0xE9])) = 33
   \<and> encrypt \<lparr>secretKey = js ''1234567890123456789012345678901'' @ [0xE9],
            iv = js ''1234567890123456''\<rparr> (js ''abc'') = Inl (EncryptionFailed InvalidKeyLength)"
proof (intro conjI)
  show "new_EncryptionService (Some (js ''1234567890123456789012345678901'' @ [0xE9]))
      (Some (js ''1234567890123456''))
     = Inr \<lparr>secretKey = js ''1234567890123456789012345678901'' @ [0xE9],
            iv = js ''1234567890123456''\<rparr>"
    by (simp add: new_EncryptionService_def js_def)
  show l: "length (utf8_encode (js ''1234567890123456789012345678901'' @ [0xE9])) = 33"
    by (simp add: js_def utf8_encode_def unit_code_point_def is_high_surrogate_def
        is_low_surrogate_def utf8_encode_code_point_def)
  show "encrypt \<lparr>secretKey = js ''1234567890123456789012345678901'' @ [0xE9],
            iv = js ''1234567890123456''\<rparr> (js ''abc'') = Inl (EncryptionFailed InvalidKeyLength)"
    by (simp add: encrypt_def create_cipher_def l ascii_key_bytes)
qed

section \<open>Verification: the book controller\<close>

lemma cast_my_book:
  "cast_ObjectId (js ''64b000000000000000000001'') = Some (ObjectId ''64b000000000000000000001'')"
  by (simp add: cast_ObjectId_def ObjectId_def js_def hex_value_def)

lemma cast_other_book:
  "cast_ObjectId (js ''64b000000000000000000002'') = Some (ObjectId ''64b000000000000000000002'')"
  by (simp add: cast_ObjectId_def ObjectId_def js_def hex_value_def)

lemma cast_not_an_id: "cast_ObjectId (js ''not-an-id'') = None"
  by (simp add: cast_ObjectId_def js_def)

lemma fixture_ids:
  "ObjectId ''64b000000000000000000002'' \<noteq> ObjectId ''64b000000000000000000001''"
  "ObjectId ''507f1f77bcf86cd799439011'' \<noteq> ObjectId ''507f1f77bcf86cd799439012''"
  by (simp_all add: ObjectId_def js_def hex_value_def)

lemma Book_findOne_not_owned:
  assumes "cast_ObjectId bookId = Some i"
    and "fault d = None"
    and "\<forall>b\<in>set (books d). b_id b = i \<longrightarrow> b_user b \<noteq> uid"
  shows "Book_findOne d bookId uid = Inr None"
proof -
  have "find (\<lambda>b. b_id b = i \<and> b_user b = uid) (books d) = None"
    using assms(3) by (simp add: find_None_iff)
  then show ?thesis
    using assms(1,2) by (simp add: Book_findOne_def query_by_id_def store_call_def)
qed

lemma Book_findOne_owned:
  assumes "cast_ObjectId bookId = Some i"
    and "fault d = None"
    and "find (\<lambda>b. b_id b = i \<and> b_user b = uid) (books d) = Some b"
  shows "Book_findOne d bookId uid = Inr (Some b)" "b_id b = i"
proof -
  show "Book_findOne d bookId uid = Inr (Some b)"
    using assms by (simp add: Book_findOne_def query_by_id_def store_call_def)
  show "b_id b = i"
    using assms(3) by (auto simp: find_Some_iff)
qed

text \<open>When the store rejects the lookup, the handlers answer 500 whatever the store
  holds, so the answer tells nothing about the book either.\<close>

lemma handlers_store_fault:
  assumes "cast_ObjectId bookId = Some i" and "fault d = Some m"
  shows "getBook d u bookId = failure_with 500 ''Failed to fetch book'' (StoreError m)
     \<and> updateBook d now u bookId title description isPublished
         = (failure_with 500 ''Failed to update book'' (StoreError m), d)
     \<and> deleteBook d u bookId = (failure_with 500 ''Failed to delete book'' (StoreError m), d)
     \<and> getBookSections d svc u bookId
         = failure_with 500 ''Failed to fetch book sections'' (StoreError m)
     \<and> addSection d svc new_id now u bookId section_title story
         = (failure_with 500 ''Failed to add section'' (StoreError m), d)"
  using assms
  by (simp add: getBook_def updateBook_def deleteBook_def getBookSections_def addSection_def
      Book_findOne_def query_by_id_def store_call_def)

text \<open>
  C2, as the code has it. When \<open>bookId\<close> is a well-formed ObjectId (the cast gives an
  identifier \<open>i\<close>), the store answers, and the store holds no book of identifier \<open>i\<close>
  owned by the requesting user (the book does not exist, or it belongs to someone else),
  then reading, updating and deleting the book, listing its sections and adding a
  section all answer 404 with message \<open>Book not found\<close> and leave the store as it was.
  The answer is the same in both cases; no handler answers 403.
\<close>

theorem ownership_isolation:
  assumes "cast_ObjectId bookId = Some i"
    and "fault d = None"
    and "\<forall>b\<in>set (books d). b_id b = i \<longrightarrow> b_user b \<noteq> u_id u"
  shows "getBook d u bookId = failure 404 ''Book not found''
     \<and> updateBook d now u bookId title description isPublished
         = (failure 404 ''Book not found'', d)
     \<and> deleteBook d u bookId = (failure 404 ''Book not found'', d)
     \<and> getBookSections d svc u bookId = failure 404 ''Book not found''
     \<and> addSection d svc new_id now u bookId section_title story
         = (failure 404 ''Book not found'', d)"
  using Book_findOne_not_owned [OF assms]
  by (simp add: getBook_def updateBook_def deleteBook_def getBookSections_def addSection_def)

text \<open>The second user asks for the first user's book, and for a book that does not
  exist.\<close>

theorem ownership_isolation_witness:
  "cast_ObjectId (js ''64b000000000000000000001'') = Some (ObjectId ''64b000000000000000000001'')
   \<and> cast_ObjectId (js ''64b000000000000000000002'') = Some (ObjectId ''64b000000000000000000002'')
   \<and> fault book_db = None
   \<and> map b_id (books book_db) = [ObjectId ''64b000000000000000000001'']
   \<and> map b_user (books book_db) = [u_id alice]
   \<and> u_id alice \<noteq> u_id bob
   \<and> getBook book_db bob (js ''64b000000000000000000001'') = failure 404 ''Book not found''
   \<and> getBook book_db bob (js ''64b000000000000000000002'') = failure 404 ''Book not found''
   \<and> updateBook book_db 9 bob (js ''64b000000000000000000001'') (Some (js ''Mine'')) None None
       = (failure 404 ''Book not found'', book_db)
   \<and> deleteBook book_db bob (js ''64b000000000000000000001'')
       = (failure 404 ''Book not found'', book_db)
   \<and> getBookSections book_db test_service bob (js ''64b000000000000000000001'')
       = failure 404 ''Book not found''
   \<and> addSection book_db test_service (ObjectId ''64c000000000000000000001'') 9 bob
         (js ''64b000000000000000000001'') (js ''Ch1'') (js ''text'')
       = (failure 404 ''Book not found'', book_db)"
proof -
  have f: "fault book_db = None"
    by (simp add: book_db_def)
  have ids: "map b_id (books book_db) = [ObjectId ''64b000000000000000000001'']"
    "map b_user (books book_db) = [u_id alice]"
    by (simp_all add: book_db_def my_book_def alice_def)
  have ab: "u_id alice \<noteq> u_id bob"
    by (simp add: alice_def bob_def fixture_ids)
  have owned: "\<forall>b\<in>set (books book_db).
      b_id b = ObjectId ''64b000000000000000000001'' \<longrightarrow> b_user b \<noteq> u_id bob"
    using fixture_ids(2) by (simp add: book_db_def my_book_def bob_def)
  have missing: "\<forall>b\<in>set (books book_db).
      b_id b = ObjectId ''64b000000000000000000002'' \<longrightarrow> b_user b \<noteq> u_id bob"
    using fixture_ids(2) by (simp add: book_db_def my_book_def bob_def)
  show ?thesis
    using f ids ab cast_my_book cast_other_book
      ownership_isolation [OF cast_my_book f owned, of 9 "Some (js ''Mine'')" None None
        test_service "ObjectId ''64c000000000000000000001''" "js ''Ch1''" "js ''text''"]
      ownership_isolation [OF cast_other_book f missing, of 9 None None None test_service
        "ObjectId ''64c000000000000000000001''" "js ''Ch1''" "js ''text''"]
    by simp
qed

text \<open>
  The specification's sentence, which is about every book id that does not exist, fails
  at an id that is not a well-formed ObjectId: no stored book has the id
  \<open>not-an-id\<close>, the query throws a \<open>CastError\<close>, and each handler's \<open>catch\<close> answers 500.
\<close>

theorem ownership_isolation_counterexample:
  "cast_ObjectId (js ''not-an-id'') = None
   \<and> getBook book_db alice (js ''not-an-id'')
       = failure_with 500 ''Failed to fetch book'' (CastError (js ''not-an-id''))
   \<and> updateBook book_db 9 alice (js ''not-an-id'') (Some (js ''Mine'')) None None
       = (failure_with 500 ''Failed to update book'' (CastError (js ''not-an-id'')), book_db)
   \<and> deleteBook book_db alice (js ''not-an-id'')
       = (failure_with 500 ''Failed to delete book'' (CastError (js ''not-an-id'')), book_db)
   \<and> getBookSections book_db test_service alice (js ''not-an-id'')
       = failure_with 500 ''Failed to fetch book sections'' (CastError (js ''not-an-id''))
   \<and> addSection book_db test_service (ObjectId ''64c000000000000000000001'') 9 alice
         (js ''not-an-id'') (js ''Ch1'') (js ''text'')
       = (failure_with 500 ''Failed to add section'' (CastError (js ''not-an-id'')), book_db)
   \<and> status (getBook book_db alice (js ''not-an-id'')) \<noteq> 404"
  using cast_not_an_id
  by (simp add: getBook_def updateBook_def deleteBook_def getBookSections_def addSection_def
      Book_findOne_def query_by_id_def failure_with_def)

subsection \<open>Adding a section\<close>

lemma hex_digit_not_whitespace:
  assumes "n < 16"
  shows "\<not> is_whitespace (hex_digit n)"
proof -
  have "n \<in> {0, 1, 2, 3, 4, 5, 6, 7, 8, 9, 10, 11, 12, 13, 14, 15}"
    using assms by simp arith
  then show ?thesis
    by (auto simp: hex_digit_def is_whitespace_def)
qed

lemma hex_encode_not_whitespace: "c \<in> set (hex_encode bs) \<Longrightarrow> \<not> is_whitespace c"
proof -
  have d: "unat b div 16 < 16" "unat b mod 16 < 16" for b :: byte
    using unsigned_less [of b, where ?'a = nat] by simp_all
  assume "c \<in> set (hex_encode bs)"
  then obtain b :: byte
    where "c = hex_digit (unat b div 16) \<or> c = hex_digit (unat b mod 16)"
    by (auto simp: hex_encode_def)
  then show ?thesis
    using d hex_digit_not_whitespace by blast
qed

lemma trim_no_whitespace:
  assumes "\<forall>c\<in>set s. \<not> is_whitespace c"
  shows "trim s = s"
proof -
  have "dropWhile is_whitespace s = s"
    using assms by (cases s) simp_all
  moreover have "dropWhile is_whitespace (rev s) = rev s"
    using assms by (cases "rev s") (simp, metis dropWhile.simps(2) list.set_intros(1) set_rev)
  ultimately show ?thesis by (simp add: trim_def)
qed

lemma derive_wordCount_one_word:
  assumes "s \<noteq> []" and "\<forall>c\<in>set s. \<not> is_whitespace c"
  shows "derive_wordCount s = 1"
  using assms
  by (simp add: derive_wordCount_tokens spec_wordCount_def trim_no_whitespace tokens_run_end)

lemma encrypt_gives_hex:
  assumes "length (utf8_encode (secretKey svc)) = 32" "length (utf8_encode (iv svc)) = 16"
  shows "\<exists>bs. bs \<noteq> [] \<and> encrypt svc plain = Inr (hex_encode bs)"
proof -
  define w where "w = key_expansion (utf8_encode (secretKey svc))"
  define p where "p = pkcs7_pad (utf8_encode plain)"
  have "length (cbc_encrypt w (utf8_encode (iv svc)) p) = length p"
    by (simp add: p_def length_cbc_encrypt pkcs7_pad_length)
  then have "cbc_encrypt w (utf8_encode (iv svc)) p \<noteq> []"
    using pkcs7_pad_nonempty [of "utf8_encode plain"] by (auto simp: p_def)
  moreover have "encrypt svc plain = Inr (hex_encode (cbc_encrypt w (utf8_encode (iv svc)) p))"
    by (simp add: encrypt_def create_cipher_ok [OF assms] w_def p_def)
  ultimately show ?thesis by blast
qed

lemma hex_encode_nonempty: "bs \<noteq> [] \<Longrightarrow> hex_encode bs \<noteq> []"
  by (cases bs) (simp_all add: hex_encode_def)

text \<open>Whatever the plaintext, the stored ciphertext is one word.\<close>

lemma ciphertext_wordCount:
  assumes "length (utf8_encode (secretKey svc)) = 32" "length (utf8_encode (iv svc)) = 16"
    and "encrypt svc plain = Inr c"
  shows "trim c = c" "derive_wordCount c = 1"
proof -
  obtain bs where bs: "bs \<noteq> []" "c = hex_encode bs"
    using encrypt_gives_hex [OF assms(1,2), of plain] assms(3) by auto
  have nws: "\<forall>x\<in>set c. \<not> is_whitespace x"
    using bs(2) hex_encode_not_whitespace by blast
  show "trim c = c"
    using nws by (rule trim_no_whitespace)
  show "derive_wordCount c = 1"
    using bs hex_encode_nonempty nws by (simp add: derive_wordCount_one_word)
qed

lemma sort_key_head_max:
  assumes "sort_key (\<lambda>s. - s_order s) xs = y # ys"
  shows "s_order y = Max (s_order ` set xs)"
proof -
  have s: "sorted (map (\<lambda>s. - s_order s) (y # ys))"
    using sorted_sort_key [of "\<lambda>s. - s_order s" xs] assms by simp
  have set: "set xs = set (y # ys)"
    using set_sort [of "\<lambda>s. - s_order s" xs] assms by simp
  have "\<forall>z\<in>set (y # ys). s_order z \<le> s_order y"
    using s by auto
  then show ?thesis
    unfolding set by (intro Max_eqI [symmetric]) auto
qed

text \<open>What the handler computes for the order: 1 for a book without sections, and
  otherwise \<open>order + 1\<close>, in JavaScript numbers, of the largest order of the book.\<close>

lemma Section_findOne_last_order:
  assumes "cast_ObjectId bookId = Some i" and "fault d = None"
  shows "\<exists>l. Section_findOne_last d bookId = Inr l
     \<and> (case l of Some x \<Rightarrow> js_add_one (s_order x) | None \<Rightarrow> 1)
       = (if filter (\<lambda>s. s_book s = i) (sections d) = [] then 1
          else js_add_one (Max (s_order ` set (filter (\<lambda>s. s_book s = i) (sections d)))))"
proof (cases "sort_key (\<lambda>s. - s_order s) (filter (\<lambda>s. s_book s = i) (sections d))")
  case Nil
  then have "filter (\<lambda>s. s_book s = i) (sections d) = []"
    by (metis length_sort list.size(3) length_0_conv)
  then show ?thesis
    using assms Nil
    by (simp add: Section_findOne_last_def query_by_id_def store_call_def)
next
  case (Cons y ys)
  then have ne: "filter (\<lambda>s. s_book s = i) (sections d) \<noteq> []"
    by auto
  show ?thesis
    using assms Cons ne sort_key_head_max [OF Cons]
    by (simp add: Section_findOne_last_def query_by_id_def store_call_def)
qed

text \<open>Below \<open>2\<^sup>5\<^sup>3\<close> the sum is exact, and the order computed is the specification's.\<close>

lemma js_add_one_exact:
  assumes "0 \<le> n" and "n < 2 ^ 53"
  shows "js_add_one n = n + 1"
  using assms by (simp add: js_add_one_def)

lemma next_order_exact:
  assumes "\<forall>s\<in>set (filter (\<lambda>s. s_book s = i) (sections d)). 0 \<le> s_order s \<and> s_order s < 2 ^ 53"
  shows "(if filter (\<lambda>s. s_book s = i) (sections d) = [] then 1
          else js_add_one (Max (s_order ` set (filter (\<lambda>s. s_book s = i) (sections d)))))
         = spec_next_order d i"
    and "0 \<le> spec_next_order d i"
proof -
  define xs where "xs = filter (\<lambda>s. s_book s = i) (sections d)"
  have b: "\<forall>s\<in>set xs. 0 \<le> s_order s \<and> s_order s < 2 ^ 53"
    using assms by (simp add: xs_def)
  have m: "0 \<le> Max (s_order ` set xs) \<and> Max (s_order ` set xs) < 2 ^ 53" if "xs \<noteq> []"
  proof -
    have "Max (s_order ` set xs) \<in> s_order ` set xs"
      using that by (intro Max_in) simp_all
    then show ?thesis
      using b by auto
  qed
  have s: "spec_next_order d i = (if xs = [] then 1 else Max (s_order ` set xs) + 1)"
    by (simp add: spec_next_order_def xs_def Let_def)
  show "(if filter (\<lambda>s. s_book s = i) (sections d) = [] then 1
          else js_add_one (Max (s_order ` set (filter (\<lambda>s. s_book s = i) (sections d)))))
         = spec_next_order d i"
    unfolding s xs_def [symmetric]
  proof (cases "xs = []")
    case True
    then show "(if xs = [] then 1 else js_add_one (Max (s_order ` set xs)))
        = (if xs = [] then 1 else Max (s_order ` set xs) + 1)"
      by simp
  next
    case False
    have "js_add_one (Max (s_order ` set xs)) = Max (s_order ` set xs) + 1"
      using m [OF False] by (intro js_add_one_exact) simp_all
    then show "(if xs = [] then 1 else js_add_one (Max (s_order ` set xs)))
        = (if xs = [] then 1 else Max (s_order ` set xs) + 1)"
      using False by simp
  qed
  show "0 \<le> spec_next_order d i"
  proof (cases "xs = []")
    case True
    then show ?thesis by (simp add: s)
  next
    case False
    have "0 \<le> Max (s_order ` set xs) + 1"
      using m [OF False] by linarith
    then show ?thesis
      using False by (simp only: s if_False)
  qed
qed

text \<open>The section the handler creates, for whatever order \<open>ord\<close> it computes, when
  that order is not negative.\<close>

lemma addSection_created:
  assumes "cast_ObjectId bookId = Some i"
    and "fault d = None"
    and "find (\<lambda>b. b_id b = i \<and> b_user b = u_id u) (books d) = Some b"
    and "length (utf8_encode (secretKey svc)) = 32" "length (utf8_encode (iv svc)) = 16"
    and "trim title \<noteq> []" "length (trim title) \<le> 200"
    and "Section_findOne_last d bookId = Inr l"
    and "(case l of Some x \<Rightarrow> js_add_one (s_order x) | None \<Rightarrow> 1) = ord"
    and "0 \<le> ord"
  shows "\<exists>c. encrypt svc story = Inr c
     \<and> addSection d svc new_id now u bookId title story
       = (ok 201 (Some ''Section added successfully'') None
            (SectionData
               \<lparr>s_id = new_id, s_title = trim title, s_story = story, s_book = i,
                s_order = ord, s_wordCount = 1, s_createdAt = now, s_updatedAt = now\<rparr>),
          d\<lparr>sections := sections d
               @ [\<lparr>s_id = new_id, s_title = trim title, s_story = c, s_book = i,
                   s_order = ord, s_wordCount = 1, s_createdAt = now,
                   s_updatedAt = now\<rparr>]\<rparr>)"
proof -
  obtain bs where bs: "encrypt svc story = Inr (hex_encode bs)"
    using encrypt_gives_hex [OF assms(4,5)] by blast
  define c where "c = hex_encode bs"
  have c: "encrypt svc story = Inr c"
    using bs by (simp add: c_def)
  have wc: "trim c = c" "derive_wordCount c = 1"
    using ciphertext_wordCount [OF assms(4,5) c] by simp_all
  have nn: "\<not> ord < 0"
    using assms(10) by simp
  note bf = Book_findOne_owned [OF assms(1,2,3)]
  have "addSection d svc new_id now u bookId title story
       = (ok 201 (Some ''Section added successfully'') None
            (SectionData
               \<lparr>s_id = new_id, s_title = trim title, s_story = story, s_book = i,
                s_order = ord, s_wordCount = 1, s_createdAt = now, s_updatedAt = now\<rparr>),
          d\<lparr>sections := sections d
               @ [\<lparr>s_id = new_id, s_title = trim title, s_story = c, s_book = i,
                   s_order = ord, s_wordCount = 1, s_createdAt = now,
                   s_updatedAt = now\<rparr>]\<rparr>)"
    using assms(2,6,7) nn
    by (simp add: addSection_def bf assms(8,9) c Section_save_new_def new_Section_def
        validate_section_def pre_save_def store_call_def wc Let_def)
  with c show ?thesis by blast
qed

lemma test_service_bytes:
  "length (utf8_encode (secretKey test_service)) = 32"
  "length (utf8_encode (iv test_service)) = 16"
  by (simp_all add: test_service_def ascii_key_bytes)

lemma alice_owns_my_book:
  "find (\<lambda>b. b_id b = ObjectId ''64b000000000000000000001'' \<and> b_user b = u_id alice) (books d)
   = Some my_book" if "books d = [my_book]" for d
  using that by (simp add: my_book_def alice_def)

text \<open>
  C7, as the code has it. Adding a section to a book the user owns (the store
  answering, the cipher configured with a 32-byte key and a 16-byte IV, a title of 1 to
  200 characters once trimmed), when the orders of the book's sections are whole numbers
  from 0 to below \<open>2\<^sup>5\<^sup>3\<close>, creates a section whose order is one more than the largest
  order among the book's sections, or 1 when the book has none.
\<close>

theorem addSection_order:
  assumes "cast_ObjectId bookId = Some i"
    and "fault d = None"
    and "find (\<lambda>b. b_id b = i \<and> b_user b = u_id u) (books d) = Some b"
    and "length (utf8_encode (secretKey svc)) = 32" "length (utf8_encode (iv svc)) = 16"
    and "trim title \<noteq> []" "length (trim title) \<le> 200"
    and "\<forall>s\<in>set (filter (\<lambda>s. s_book s = i) (sections d)). 0 \<le> s_order s \<and> s_order s < 2 ^ 53"
  shows "\<exists>sec. addSection d svc new_id now u bookId title story
        = (ok 201 (Some ''Section added successfully'') None
             (SectionData (sec\<lparr>s_story := story\<rparr>)),
           d\<lparr>sections := sections d @ [sec]\<rparr>)
     \<and> s_book sec = i
     \<and> s_order sec = spec_next_order d i"
proof -
  obtain l where l: "Section_findOne_last d bookId = Inr l"
    "(case l of Some x \<Rightarrow> js_add_one (s_order x) | None \<Rightarrow> 1) = spec_next_order d i"
    using Section_findOne_last_order [OF assms(1,2)] next_order_exact(1) [OF assms(8)]
    by auto
  obtain c where
    "addSection d svc new_id now u bookId title story
       = (ok 201 (Some ''Section added successfully'') None
            (SectionData
               \<lparr>s_id = new_id, s_title = trim title, s_story = story, s_book = i,
                s_order = spec_next_order d i, s_wordCount = 1, s_createdAt = now,
                s_updatedAt = now\<rparr>),
          d\<lparr>sections := sections d
               @ [\<lparr>s_id = new_id, s_title = trim title, s_story = c, s_book = i,
                   s_order = spec_next_order d i, s_wordCount = 1, s_createdAt = now,
                   s_updatedAt = now\<rparr>]\<rparr>)"
    using addSection_created [OF assms(1-7) l next_order_exact(2) [OF assms(8)]] by blast
  then show ?thesis
    by (intro exI [of _ "\<lparr>s_id = new_id, s_title = trim title, s_story = c, s_book = i,
                   s_order = spec_next_order d i, s_wordCount = 1, s_createdAt = now,
                   s_updatedAt = now\<rparr>"]) simp
qed

text \<open>No section is created with another order: under the same condition on the stored
  orders, when the store answers and the user owns the book, the handler either answers
  500 and leaves the store as it was, or creates one section, with the order above.\<close>

lemma addSection_order_only:
  assumes "cast_ObjectId bookId = Some i"
    and "fault d = None"
    and "find (\<lambda>b. b_id b = i \<and> b_user b = u_id u) (books d) = Some b"
    and "\<forall>s\<in>set (filter (\<lambda>s. s_book s = i) (sections d)). 0 \<le> s_order s \<and> s_order s < 2 ^ 53"
  shows "(\<exists>e. addSection d svc new_id now u bookId title story
               = (failure_with 500 ''Failed to add section'' e, d))
     \<or> (\<exists>sec. addSection d svc new_id now u bookId title story
                 = (ok 201 (Some ''Section added successfully'') None
                      (SectionData (sec\<lparr>s_story := story\<rparr>)),
                    d\<lparr>sections := sections d @ [sec]\<rparr>)
              \<and> s_order sec = spec_next_order d i)"
proof -
  obtain l where l: "Section_findOne_last d bookId = Inr l"
    "(case l of Some x \<Rightarrow> js_add_one (s_order x) | None \<Rightarrow> 1) = spec_next_order d i"
    using Section_findOne_last_order [OF assms(1,2)] next_order_exact(1) [OF assms(4)]
    by auto
  note bf = Book_findOne_owned [OF assms(1,2,3)]
  show ?thesis
  proof (cases "encrypt svc story")
    case (Inl e)
    then have "addSection d svc new_id now u bookId title story
               = (failure_with 500 ''Failed to add section'' e, d)"
      by (simp add: addSection_def bf l)
    then show ?thesis by blast
  next
    case (Inr c)
    show ?thesis
    proof (cases "validate_section (new_Section new_id now title c i (spec_next_order d i))")
      case Nil
      define sec where
        "sec = pre_save True (new_Section new_id now title c i (spec_next_order d i))"
      have "addSection d svc new_id now u bookId title story
                 = (ok 201 (Some ''Section added successfully'') None
                      (SectionData (sec\<lparr>s_story := story\<rparr>)),
                    d\<lparr>sections := sections d @ [sec]\<rparr>)"
        using assms(2) Inr Nil
        by (simp add: addSection_def bf l Section_save_new_def store_call_def Let_def sec_def)
      moreover have "s_order sec = spec_next_order d i"
        by (simp add: sec_def pre_save_def new_Section_def)
      ultimately show ?thesis by blast
    next
      case (Cons e es)
      then have "addSection d svc new_id now u bookId title story
               = (failure_with 500 ''Failed to add section'' (ValidationError (e # es)), d)"
        using Inr by (simp add: addSection_def bf l Section_save_new_def)
      then show ?thesis by blast
    qed
  qed
qed

lemma trim_Ch1: "trim (js ''Ch1'') = js ''Ch1''"
  by (simp add: trim_def js_def is_whitespace_def)

lemma title_Ch1: "trim (js ''Ch1'') \<noteq> []" "length (trim (js ''Ch1'')) \<le> 200"
  by (simp_all add: trim_Ch1) (simp_all add: js_def)

text \<open>The first section of a book gets order 1; a section added while one of order 1
  exists gets order 2.\<close>

theorem addSection_order_witness:
  "(\<exists>sec. addSection book_db test_service (ObjectId ''64c000000000000000000001'') 5 alice
             (js ''64b000000000000000000001'') (js ''Ch1'')
             (js ''Once upon a time there was a fox.'')
        = (ok 201 (Some ''Section added successfully'') None
             (SectionData (sec\<lparr>s_story := js ''Once upon a time there was a fox.''\<rparr>)),
           book_db\<lparr>sections := [sec]\<rparr>)
      \<and> s_order sec = 1)
   \<and> (\<exists>sec. addSection
             (book_db\<lparr>sections :=
                [stored_section (ObjectId ''64c000000000000000000001'') 1
                   (ciphertext_of (js ''Existing story''))]\<rparr>)
             test_service (ObjectId ''64c000000000000000000002'') 6 alice
             (js ''64b000000000000000000001'') (js ''Ch1'') (js ''New story'')
        = (ok 201 (Some ''Section added successfully'') None
             (SectionData (sec\<lparr>s_story := js ''New story''\<rparr>)),
           book_db\<lparr>sections :=
             [stored_section (ObjectId ''64c000000000000000000001'') 1
                (ciphertext_of (js ''Existing story'')), sec]\<rparr>)
      \<and> s_order sec = 2)"
proof -
  let ?i = "ObjectId ''64b000000000000000000001''"
  let ?s0 = "stored_section (ObjectId ''64c000000000000000000001'') 1
               (ciphertext_of (js ''Existing story''))"
  let ?d1 = "book_db"
  let ?d2 = "book_db\<lparr>sections := [?s0]\<rparr>"
  have f1: "fault ?d1 = None" and f2: "fault ?d2 = None"
    by (simp_all add: book_db_def)
  have b1: "find (\<lambda>b. b_id b = ?i \<and> b_user b = u_id alice) (books ?d1) = Some my_book"
    by (rule alice_owns_my_book) (simp add: book_db_def)
  have b2: "find (\<lambda>b. b_id b = ?i \<and> b_user b = u_id alice) (books ?d2) = Some my_book"
    by (rule alice_owns_my_book) (simp add: book_db_def)
  have o1: "\<forall>s\<in>set (filter (\<lambda>s. s_book s = ?i) (sections ?d1)).
              0 \<le> s_order s \<and> s_order s < 2 ^ 53"
    by (simp add: book_db_def)
  have o2: "\<forall>s\<in>set (filter (\<lambda>s. s_book s = ?i) (sections ?d2)).
              0 \<le> s_order s \<and> s_order s < 2 ^ 53"
    by (simp add: stored_section_def)
  have n1: "spec_next_order ?d1 ?i = 1"
    by (simp add: spec_next_order_def book_db_def)
  have n2: "spec_next_order ?d2 ?i = 2"
    by (simp add: spec_next_order_def stored_section_def)
  have e1: "\<exists>sec. addSection ?d1 test_service (ObjectId ''64c000000000000000000001'') 5 alice
             (js ''64b000000000000000000001'') (js ''Ch1'')
             (js ''Once upon a time there was a fox.'')
        = (ok 201 (Some ''Section added successfully'') None
             (SectionData (sec\<lparr>s_story := js ''Once upon a time there was a fox.''\<rparr>)),
           ?d1\<lparr>sections := [sec]\<rparr>)
      \<and> s_order sec = 1"
  proof -
    obtain sec where
      "addSection ?d1 test_service (ObjectId ''64c000000000000000000001'') 5 alice
             (js ''64b000000000000000000001'') (js ''Ch1'')
             (js ''Once upon a time there was a fox.'')
        = (ok 201 (Some ''Section added successfully'') None
             (SectionData (sec\<lparr>s_story := js ''Once upon a time there was a fox.''\<rparr>)),
           ?d1\<lparr>sections := sections ?d1 @ [sec]\<rparr>)"
      "s_order sec = spec_next_order ?d1 ?i"
      using addSection_order [OF cast_my_book f1 b1 test_service_bytes title_Ch1 o1,
          of "ObjectId ''64c000000000000000000001''" 5
          "js ''Once upon a time there was a fox.''"]
      by blast
    moreover have "sections ?d1 = []"
      by (simp add: book_db_def)
    ultimately show ?thesis
      unfolding n1 by (intro exI [of _ sec]) simp
  qed
  have e2: "\<exists>sec. addSection ?d2 test_service (ObjectId ''64c000000000000000000002'') 6 alice
             (js ''64b000000000000000000001'') (js ''Ch1'') (js ''New story'')
        = (ok 201 (Some ''Section added successfully'') None
             (SectionData (sec\<lparr>s_story := js ''New story''\<rparr>)),
           book_db\<lparr>sections := [?s0, sec]\<rparr>)
      \<and> s_order sec = 2"
  proof -
    obtain sec where
      "addSection ?d2 test_service (ObjectId ''64c000000000000000000002'') 6 alice
             (js ''64b000000000000000000001'') (js ''Ch1'') (js ''New story'')
        = (ok 201 (Some ''Section added successfully'') None
             (SectionData (sec\<lparr>s_story := js ''New story''\<rparr>)),
           ?d2\<lparr>sections := sections ?d2 @ [sec]\<rparr>)"
      "s_order sec = spec_next_order ?d2 ?i"
      using addSection_order [OF cast_my_book f2 b2 test_service_bytes title_Ch1 o2,
          of "ObjectId ''64c000000000000000000002''" 6 "js ''New story''"]
      by blast
    then show ?thesis
      unfolding n2 by (intro exI [of _ sec]) simp
  qed
  from e1 e2 show ?thesis by (rule conjI)
qed

text \<open>
  The specification's sentence, which has no condition on the stored orders, fails from
  \<open>2\<^sup>5\<^sup>3\<close> on, where \<open>order + 1\<close> is rounded. An order is stored as the request gives it
  when a section is updated (only \<open>min: 0\<close> is checked). With a section of order
  \<open>2\<^sup>5\<^sup>3 = 9007199254740992\<close> in the book, the section added gets the order \<open>2\<^sup>5\<^sup>3\<close>
  again, not \<open>2\<^sup>5\<^sup>3 + 1\<close>.
\<close>

theorem addSection_order_counterexample:
  "status (fst (addSection
       (book_db\<lparr>sections :=
          [stored_section (ObjectId ''64c000000000000000000001'') 9007199254740992
             (ciphertext_of (js ''Existing story''))]\<rparr>)
       test_service (ObjectId ''64c000000000000000000002'') 6 alice
       (js ''64b000000000000000000001'') (js ''Ch1'') (js ''New story''))) = 201
   \<and> map s_order (sections (snd (addSection
       (book_db\<lparr>sections :=
          [stored_section (ObjectId ''64c000000000000000000001'') 9007199254740992
             (ciphertext_of (js ''Existing story''))]\<rparr>)
       test_service (ObjectId ''64c000000000000000000002'') 6 alice
       (js ''64b000000000000000000001'') (js ''Ch1'') (js ''New story''))))
     = [9007199254740992, 9007199254740992]
   \<and> spec_next_order
       (book_db\<lparr>sections :=
          [stored_section (ObjectId ''64c000000000000000000001'') 9007199254740992
             (ciphertext_of (js ''Existing story''))]\<rparr>)
       (ObjectId ''64b000000000000000000001'') = 9007199254740993"
proof -
  let ?i = "ObjectId ''64b000000000000000000001''"
  let ?s0 = "stored_section (ObjectId ''64c000000000000000000001'') 9007199254740992
               (ciphertext_of (js ''Existing story''))"
  let ?d = "book_db\<lparr>sections := [?s0]\<rparr>"
  have f: "fault ?d = None"
    by (simp add: book_db_def)
  have b: "find (\<lambda>b. b_id b = ?i \<and> b_user b = u_id alice) (books ?d) = Some my_book"
    by (rule alice_owns_my_book) (simp add: book_db_def)
  have l: "Section_findOne_last ?d (js ''64b000000000000000000001'') = Inr (Some ?s0)"
    by (simp add: Section_findOne_last_def query_by_id_def cast_my_book store_call_def
        book_db_def stored_section_def)
  have ord: "(case Some ?s0 of Some x \<Rightarrow> js_add_one (s_order x) | None \<Rightarrow> 1)
             = 9007199254740992"
    by (simp add: stored_section_def js_add_one_def)
  have nn: "(0 :: int) \<le> 9007199254740992"
    by simp
  obtain c where a: "addSection ?d test_service (ObjectId ''64c000000000000000000002'') 6 alice
       (js ''64b000000000000000000001'') (js ''Ch1'') (js ''New story'')
     = (ok 201 (Some ''Section added successfully'') None
          (SectionData
             \<lparr>s_id = ObjectId ''64c000000000000000000002'', s_title = trim (js ''Ch1''),
              s_story = js ''New story'', s_book = ?i, s_order = 9007199254740992,
              s_wordCount = 1, s_createdAt = 6, s_updatedAt = 6\<rparr>),
        ?d\<lparr>sections := sections ?d
             @ [\<lparr>s_id = ObjectId ''64c000000000000000000002'', s_title = trim (js ''Ch1''),
                 s_story = c, s_book = ?i, s_order = 9007199254740992, s_wordCount = 1,
                 s_createdAt = 6, s_updatedAt = 6\<rparr>]\<rparr>)"
    using addSection_created [OF cast_my_book f b test_service_bytes title_Ch1 l ord nn,
        where new_id = "ObjectId ''64c000000000000000000002''" and now = 6
        and story = "js ''New story''"]
    by blast
  have n: "spec_next_order ?d ?i = 9007199254740993"
    by (simp add: spec_next_order_def stored_section_def)
  show ?thesis
    unfolding a n by (simp add: ok_def stored_section_def)
qed

text \<open>
  C3. The specification asks for the word count of the plaintext to be stored. The
  handler sets the story to the ciphertext before \<open>save()\<close>, and the hook counts the
  words of what the document holds: for the story
  \<open>Once upon a time there was a fox.\<close> the word count stored is 1, while the derivation
  applied to the plaintext gives 8.
\<close>

theorem addSection_wordCount_of_ciphertext:
  "map s_wordCount
     (sections (snd (addSection book_db test_service (ObjectId ''64c000000000000000000001'') 5
                       alice (js ''64b000000000000000000001'') (js ''Ch1'')
                       (js ''Once upon a time there was a fox.''))))
   = [1]
   \<and> derive_wordCount (js ''Once upon a time there was a fox.'') = 8"
proof (intro conjI)
  let ?i = "ObjectId ''64b000000000000000000001''"
  have f1: "fault book_db = None"
    by (simp add: book_db_def)
  have b1: "find (\<lambda>b. b_id b = ?i \<and> b_user b = u_id alice) (books book_db) = Some my_book"
    by (rule alice_owns_my_book) (simp add: book_db_def)
  have l: "Section_findOne_last book_db (js ''64b000000000000000000001'') = Inr None"
    by (simp add: Section_findOne_last_def query_by_id_def cast_my_book store_call_def
        book_db_def)
  have ord: "(case None :: section_doc option of Some x \<Rightarrow> js_add_one (s_order x) | None \<Rightarrow> 1)
             = 1"
    by simp
  have nn: "(0 :: int) \<le> 1"
    by simp
  show "map s_wordCount
     (sections (snd (addSection book_db test_service (ObjectId ''64c000000000000000000001'') 5
                       alice (js ''64b000000000000000000001'') (js ''Ch1'')
                       (js ''Once upon a time there was a fox.''))))
   = [1]"
    using addSection_created [OF cast_my_book f1 b1 test_service_bytes title_Ch1 l ord nn,
        where new_id = "ObjectId ''64c000000000000000000001''" and now = 5
        and story = "js ''Once upon a time there was a fox.''"]
    by (auto simp: book_db_def)
  show "derive_wordCount (js ''Once upon a time there was a fox.'') = 8"
    by code_simp
qed

subsection \<open>Listing the sections\<close>

lemma decrypt_ciphertext_of:
  assumes "well_formed plain"
  shows "decrypt test_service (ciphertext_of plain) = Inr plain"
proof -
  obtain c where "encrypt test_service plain = Inr c" "decrypt test_service c = Inr plain"
    using decrypt_encrypt [OF test_service_bytes assms] by blast
  then show ?thesis by (simp add: ciphertext_of_def)
qed

text \<open>A stored story with an odd number of characters is rejected before any byte is
  read; a ciphertext has an even number of characters, so a ciphertext with one more
  character fails to decrypt.\<close>

lemma decrypt_odd_length:
  assumes "length (utf8_encode (secretKey svc)) = 32" "length (utf8_encode (iv svc)) = 16"
    and "length c mod 2 = 1"
  shows "decrypt svc c = Inl (DecryptionFailed InvalidHexLength)"
  using assms(3) by (simp add: decrypt_def create_cipher_ok [OF assms(1,2)])

lemma length_ciphertext_of: "length (ciphertext_of plain) mod 2 = 0"
proof -
  obtain bs where "encrypt test_service plain = Inr (hex_encode bs)"
    using encrypt_gives_hex [OF test_service_bytes] by blast
  then show ?thesis
    by (simp add: ciphertext_of_def length_hex_encode)
qed

lemma decrypt_one_more_character:
  "decrypt test_service (ciphertext_of plain @ [x]) = Inl (DecryptionFailed InvalidHexLength)"
proof -
  have "length (ciphertext_of plain @ [x]) mod 2 = 1"
    using length_ciphertext_of [of plain] by (simp add: mod_Suc)
  then show ?thesis
    by (rule decrypt_odd_length [OF test_service_bytes])
qed

lemma decrypt_not_hex:
  "decrypt test_service (js ''invalid-encrypted-text'')
   = Inl (DecryptionFailed WrongFinalBlockLength)"
proof -
  have "hex_decode (js ''invalid-encrypted-text'') = []"
    "length (js ''invalid-encrypted-text'') = 22"
    by (simp_all add: js_def hex_value_def)
  then show ?thesis
    by (simp add: decrypt_def create_cipher_ok [OF test_service_bytes])
qed

text \<open>The listing, as the handler computes it.\<close>

lemma getBookSections_listing:
  assumes "cast_ObjectId bookId = Some i"
    and "fault d = None"
    and "find (\<lambda>b. b_id b = i \<and> b_user b = u_id u) (books d) = Some b"
  shows "getBookSections d svc u bookId
     = ok 200 None
         (Some (length (sort_key (\<lambda>s. (s_order s, s_createdAt s))
                  (filter (\<lambda>s. s_book s = i) (sections d)))))
         (SectionsData b
            (map (\<lambda>s. s\<lparr>s_story :=
                         (case decrypt svc (s_story s) of
                            Inr plain \<Rightarrow> plain
                          | Inl e \<Rightarrow> js ''[Encryption Error]'')\<rparr>)
               (sort_key (\<lambda>s. (s_order s, s_createdAt s))
                  (filter (\<lambda>s. s_book s = i) (sections d)))))"
proof -
  have "decrypt_section svc = (\<lambda>s. s\<lparr>s_story :=
                         (case decrypt svc (s_story s) of
                            Inr plain \<Rightarrow> plain
                          | Inl e \<Rightarrow> js ''[Encryption Error]'')\<rparr>)"
    by (rule ext) (simp add: decrypt_section_def split: sum.split)
  then show ?thesis
    using assms(1,2)
    by (simp add: getBookSections_def Book_findOne_owned(1) [OF assms]
        Section_find_sorted_def query_by_id_def store_call_def)
qed

text \<open>
  C8. Listing the sections of a book the user owns (a well-formed book id, the store
  answering) succeeds with status 200. The sections listed are the stored sections of
  the book, each of them once, by ascending order and creation time, and the count is
  their number. Each section's story is decrypted on its own: a story that fails to
  decrypt is replaced by \<open>[Encryption Error]\<close> in that section only, and every other
  section has its decrypted story.
\<close>

theorem getBookSections_decrypts_each:
  assumes "cast_ObjectId bookId = Some i"
    and "fault d = None"
    and "find (\<lambda>b. b_id b = i \<and> b_user b = u_id u) (books d) = Some b"
  shows "\<exists>secs. getBookSections d svc u bookId
        = ok 200 None (Some (length (filter (\<lambda>s. s_book s = i) (sections d))))
            (SectionsData b
               (map (\<lambda>s. s\<lparr>s_story :=
                            (case decrypt svc (s_story s) of
                               Inr plain \<Rightarrow> plain
                             | Inl e \<Rightarrow> js ''[Encryption Error]'')\<rparr>)
                  secs))
     \<and> mset secs = mset (filter (\<lambda>s. s_book s = i) (sections d))
     \<and> sorted (map (\<lambda>s. (s_order s, s_createdAt s)) secs)"
proof -
  define secs where
    "secs = sort_key (\<lambda>s. (s_order s, s_createdAt s)) (filter (\<lambda>s. s_book s = i) (sections d))"
  have "getBookSections d svc u bookId
        = ok 200 None (Some (length (filter (\<lambda>s. s_book s = i) (sections d))))
            (SectionsData b
               (map (\<lambda>s. s\<lparr>s_story :=
                            (case decrypt svc (s_story s) of
                               Inr plain \<Rightarrow> plain
                             | Inl e \<Rightarrow> js ''[Encryption Error]'')\<rparr>)
                  secs))"
    using getBookSections_listing [OF assms, of svc] by (simp add: secs_def)
  moreover have "mset secs = mset (filter (\<lambda>s. s_book s = i) (sections d))"
    by (simp add: secs_def)
  moreover have "sorted (map (\<lambda>s. (s_order s, s_createdAt s)) secs)"
    unfolding secs_def by (rule sorted_sort_key)
  ultimately show ?thesis by blast
qed

text \<open>Three sections stored out of order, and a section of another book. The story of
  the second section of the book is a ciphertext with one character more, which does not
  decrypt: the three sections of the book are listed in order, the second with the
  placeholder and the other two with their plaintexts.\<close>

theorem getBookSections_decrypts_each_witness:
  "decrypt test_service (ciphertext_of (js ''two'') @ js ''0'')
     = Inl (DecryptionFailed InvalidHexLength)
   \<and> (\<exists>secs. getBookSections
         (book_db\<lparr>sections :=
            [stored_section (ObjectId ''64c000000000000000000003'') 3
               (ciphertext_of (js ''three'')),
             stored_section (ObjectId ''64c000000000000000000001'') 1
               (ciphertext_of (js ''one'')),
             (stored_section (ObjectId ''64c000000000000000000004'') 1
                (ciphertext_of (js ''other'')))
               \<lparr>s_book := ObjectId ''64b000000000000000000002''\<rparr>,
             stored_section (ObjectId ''64c000000000000000000002'') 2
               (ciphertext_of (js ''two'') @ js ''0'')]\<rparr>)
         test_service alice (js ''64b000000000000000000001'')
       = ok 200 None (Some 3)
           (SectionsData my_book
              (map (\<lambda>s. s\<lparr>s_story :=
                           (case decrypt test_service (s_story s) of
                              Inr plain \<Rightarrow> plain
                            | Inl e \<Rightarrow> js ''[Encryption Error]'')\<rparr>)
                 secs))
       \<and> mset secs
         = mset [stored_section (ObjectId ''64c000000000000000000003'') 3
                   (ciphertext_of (js ''three'')),
                 stored_section (ObjectId ''64c000000000000000000001'') 1
                   (ciphertext_of (js ''one'')),
                 stored_section (ObjectId ''64c000000000000000000002'') 2
                   (ciphertext_of (js ''two'') @ js ''0'')]
       \<and> sorted (map (\<lambda>s. (s_order s, s_createdAt s)) secs))
   \<and> getBookSections
     (book_db\<lparr>sections :=
        [stored_section (ObjectId ''64c000000000000000000003'') 3
           (ciphertext_of (js ''three'')),
         stored_section (ObjectId ''64c000000000000000000001'') 1
           (ciphertext_of (js ''one'')),
         (stored_section (ObjectId ''64c000000000000000000004'') 1
            (ciphertext_of (js ''other'')))
           \<lparr>s_book := ObjectId ''64b000000000000000000002''\<rparr>,
         stored_section (ObjectId ''64c000000000000000000002'') 2
           (ciphertext_of (js ''two'') @ js ''0'')]\<rparr>)
     test_service alice (js ''64b000000000000000000001'')
   = ok 200 None (Some 3)
       (SectionsData my_book
          [stored_section (ObjectId ''64c000000000000000000001'') 1 (js ''one''),
           stored_section (ObjectId ''64c000000000000000000002'') 2 (js ''[Encryption Error]''),
           stored_section (ObjectId ''64c000000000000000000003'') 3 (js ''three'')])"
proof -
  let ?i = "ObjectId ''64b000000000000000000001''"
  let ?s1 = "stored_section (ObjectId ''64c000000000000000000001'') 1
               (ciphertext_of (js ''one''))"
  let ?s2 = "stored_section (ObjectId ''64c000000000000000000002'') 2
               (ciphertext_of (js ''two'') @ js ''0'')"
  let ?s3 = "stored_section (ObjectId ''64c000000000000000000003'') 3
               (ciphertext_of (js ''three''))"
  let ?s4 = "(stored_section (ObjectId ''64c000000000000000000004'') 1
               (ciphertext_of (js ''other'')))\<lparr>s_book := ObjectId ''64b000000000000000000002''\<rparr>"
  let ?d = "book_db\<lparr>sections := [?s3, ?s1, ?s4, ?s2]\<rparr>"
  have f: "fault ?d = None"
    by (simp add: book_db_def)
  have b: "find (\<lambda>b. b_id b = ?i \<and> b_user b = u_id alice) (books ?d) = Some my_book"
    by (rule alice_owns_my_book) (simp add: book_db_def)
  have fl: "filter (\<lambda>s. s_book s = ?i) (sections ?d) = [?s3, ?s1, ?s2]"
    using fixture_ids(1) by (simp add: stored_section_def)
  have so: "sort_key (\<lambda>s. (s_order s, s_createdAt s)) [?s3, ?s1, ?s2] = [?s1, ?s2, ?s3]"
    by (simp add: stored_section_def)
  have w: "well_formed (js ''one'')" "well_formed (js ''three'')"
    by (simp_all add: js_def is_high_surrogate_def is_low_surrogate_def)
  have z: "js ''0'' = [0x30]"
    by (simp add: js_def)
  have bad: "decrypt test_service (ciphertext_of (js ''two'') @ js ''0'')
     = Inl (DecryptionFailed InvalidHexLength)"
    unfolding z by (rule decrypt_one_more_character)
  have l3: "Some (length [?s3, ?s1, ?s2]) = Some 3"
    by simp
  have general: "\<exists>secs. getBookSections ?d test_service alice (js ''64b000000000000000000001'')
       = ok 200 None (Some 3)
           (SectionsData my_book
              (map (\<lambda>s. s\<lparr>s_story :=
                           (case decrypt test_service (s_story s) of
                              Inr plain \<Rightarrow> plain
                            | Inl e \<Rightarrow> js ''[Encryption Error]'')\<rparr>)
                 secs))
       \<and> mset secs = mset [?s3, ?s1, ?s2]
       \<and> sorted (map (\<lambda>s. (s_order s, s_createdAt s)) secs)"
    using getBookSections_decrypts_each [OF cast_my_book f b, of test_service]
    unfolding fl l3 .
  have "getBookSections ?d test_service alice (js ''64b000000000000000000001'')
     = ok 200 None (Some (length [?s1, ?s2, ?s3]))
         (SectionsData my_book
            (map (\<lambda>s. s\<lparr>s_story :=
                         (case decrypt test_service (s_story s) of
                            Inr plain \<Rightarrow> plain
                          | Inl e \<Rightarrow> js ''[Encryption Error]'')\<rparr>)
               [?s1, ?s2, ?s3]))"
    using getBookSections_listing [OF cast_my_book f b, of test_service]
    unfolding fl so .
  then have listed: "getBookSections ?d test_service alice (js ''64b000000000000000000001'')
   = ok 200 None (Some 3)
       (SectionsData my_book
          [stored_section (ObjectId ''64c000000000000000000001'') 1 (js ''one''),
           stored_section (ObjectId ''64c000000000000000000002'') 2 (js ''[Encryption Error]''),
           stored_section (ObjectId ''64c000000000000000000003'') 3 (js ''three'')])"
    by (simp add: decrypt_ciphertext_of [OF w(1)] decrypt_ciphertext_of [OF w(2)]
        bad stored_section_def numeral_3_eq_3)
  from bad general listed show ?thesis by (intro conjI)
qed

end
